theory Spec2Isabelle
  imports Complex_Main
begin

section \<open>Black-Scholes option pricer: the procedural and the object-oriented variant\<close>

text \<open>
  The two Python modules \<^verbatim>\<open>bs_option_pricer.py\<close> and \<^verbatim>\<open>bs_option_pricer_oop.py\<close>
  are embedded over the reals: a Python \<^verbatim>\<open>float\<close> is read as the real number it stands
  for, so rounding, overflow, infinities and NaN are outside the model. Every exception
  the arithmetic of the source can raise on real arguments is a value of \<open>error\<close>, and a
  function that falls off its last \<^verbatim>\<open>elif\<close> returns Python's \<^verbatim>\<open>None\<close>, the \<open>None\<close>
  of an option type.
\<close>

subsection \<open>Exceptions and the arithmetic of \<^verbatim>\<open>math\<close>\<close>

datatype error = ZeroDivisionError | ValueError | UnboundLocalError | AttributeError | EOFError

type_synonym 'a result = "error + 'a"

definition bind_err :: "'a result \<Rightarrow> ('a \<Rightarrow> 'b result) \<Rightarrow> 'b result" where
  "bind_err m f = (case m of Inl e \<Rightarrow> Inl e | Inr v \<Rightarrow> f v)"

text \<open>\<^verbatim>\<open>x / y\<close> on floats raises ZeroDivisionError when \<^verbatim>\<open>y\<close> is zero.\<close>

definition py_div :: "real \<Rightarrow> real \<Rightarrow> real result" where
  "py_div x y = (if y = 0 then Inl ZeroDivisionError else Inr (x / y))"

text \<open>\<^verbatim>\<open>math.log\<close> and \<^verbatim>\<open>math.sqrt\<close> raise ValueError ("math domain error") outside
  their domains.\<close>

definition math_log :: "real \<Rightarrow> real result" where
  "math_log x = (if x \<le> 0 then Inl ValueError else Inr (ln x))"

definition math_sqrt :: "real \<Rightarrow> real result" where
  "math_sqrt x = (if x < 0 then Inl ValueError else Inr (sqrt x))"

subsection \<open>The standard normal distribution of \<^verbatim>\<open>scipy.stats.norm\<close>\<close>

text \<open>
  \<^verbatim>\<open>norm.pdf\<close> and \<^verbatim>\<open>norm.cdf\<close> belong to SciPy, not to the repository. They are
  modelled as the density and the distribution function of the standard normal law:
  the density in closed form, the distribution function as one half plus the
  antiderivative of the density that vanishes at zero, written as its power series
  \<open>\<Sum>n. (-1)^n x^(2n+1) / (2^n n! (2n+1))\<close> over \<open>sqrt (2 pi)\<close>.
\<close>

definition norm_pdf :: "real \<Rightarrow> real" where
  "norm_pdf x = exp (- (x\<^sup>2) / 2) / sqrt (2 * pi)"

definition gauss_term :: "real \<Rightarrow> nat \<Rightarrow> real" where
  "gauss_term x n = (- 1) ^ n * x ^ (2 * n + 1) / (2 ^ n * fact n * real (2 * n + 1))"

definition gauss_int :: "real \<Rightarrow> real" where
  "gauss_int x = (\<Sum>n. gauss_term x n)"

definition norm_cdf :: "real \<Rightarrow> real" where
  "norm_cdf x = 1 / 2 + gauss_int x / sqrt (2 * pi)"

subsection \<open>The closed form in the words of the specification\<close>

text \<open>
  The Black-Scholes formulas as the specification writes them, against which the
  functions of the source are compared: \<open>d1\<close>, \<open>d2\<close>, and the price of a call and of a
  put, with \<open>norm_cdf\<close> for the standard normal distribution function.
\<close>

definition bs_d1 :: "real \<Rightarrow> real \<Rightarrow> real \<Rightarrow> real \<Rightarrow> real \<Rightarrow> real" where
  "bs_d1 S K r t sigma = (ln (S / K) + (r + sigma\<^sup>2 / 2) * t) / (sigma * sqrt t)"

definition bs_d2 :: "real \<Rightarrow> real \<Rightarrow> real \<Rightarrow> real \<Rightarrow> real \<Rightarrow> real" where
  "bs_d2 S K r t sigma = bs_d1 S K r t sigma - sigma * sqrt t"

definition bs_call :: "real \<Rightarrow> real \<Rightarrow> real \<Rightarrow> real \<Rightarrow> real \<Rightarrow> real" where
  "bs_call S K r t sigma =
     norm_cdf (bs_d1 S K r t sigma) * S - norm_cdf (bs_d2 S K r t sigma) * K * exp (- r * t)"

definition bs_put :: "real \<Rightarrow> real \<Rightarrow> real \<Rightarrow> real \<Rightarrow> real \<Rightarrow> real" where
  "bs_put S K r t sigma =
     K * exp (- r * t) * norm_cdf (- bs_d2 S K r t sigma) - S * norm_cdf (- bs_d1 S K r t sigma)"

subsection \<open>The procedural variant\<close>

text \<open>The expression for \<^verbatim>\<open>d1\<close>, which every function of the source starts with, in
  Python's order of evaluation: \<^verbatim>\<open>S/K\<close>, its logarithm, \<^verbatim>\<open>math.sqrt(t)\<close>, the division.\<close>

definition calc_d1 :: "real \<Rightarrow> real \<Rightarrow> real \<Rightarrow> real \<Rightarrow> real \<Rightarrow> real result" where
  "calc_d1 S K r t sigma =
     bind_err (py_div S K) (\<lambda>q.
     bind_err (math_log q) (\<lambda>l.
     bind_err (math_sqrt t) (\<lambda>st.
       py_div (l + (r + (sigma\<^sup>2) / 2) * t) (sigma * st))))"

definition is_call :: "string \<Rightarrow> bool" where
  "is_call option_type \<longleftrightarrow> option_type \<in> set [''c'', ''call'']"

definition is_put :: "string \<Rightarrow> bool" where
  "is_put option_type \<longleftrightarrow> option_type \<in> set [''p'', ''put'']"

definition bsmodel :: "string \<Rightarrow> real \<Rightarrow> real \<Rightarrow> real \<Rightarrow> real \<Rightarrow> real \<Rightarrow> real option result" where
  "bsmodel option_type S K r t sigma =
     bind_err (calc_d1 S K r t sigma) (\<lambda>d1.
       let d2 = d1 - sigma * sqrt t;
           N_d1 = norm_cdf d1;
           N_d2 = norm_cdf d2;
           N_neg_d1 = norm_cdf (- d1);
           N_neg_d2 = norm_cdf (- d2)
       in if is_call option_type then Inr (Some (N_d1 * S - N_d2 * K * exp (- r * t)))
          else if is_put option_type then Inr (Some (exp (- r * t) * K * N_neg_d2 - (S * N_neg_d1)))
          else Inr None)"

definition delta :: "string \<Rightarrow> real \<Rightarrow> real \<Rightarrow> real \<Rightarrow> real \<Rightarrow> real \<Rightarrow> real option result" where
  "delta option_type S K r t sigma =
     bind_err (calc_d1 S K r t sigma) (\<lambda>d1.
       if is_call option_type then Inr (Some (norm_cdf d1))
       else if is_put option_type then Inr (Some (- norm_cdf (- d1)))
       else Inr None)"

definition gamma :: "real \<Rightarrow> real \<Rightarrow> real \<Rightarrow> real \<Rightarrow> real \<Rightarrow> real result" where
  "gamma S K r t sigma =
     bind_err (calc_d1 S K r t sigma) (\<lambda>d1.
       let N_d1 = norm_pdf d1
       in py_div N_d1 (S * sigma * sqrt t))"

definition theta :: "string \<Rightarrow> real \<Rightarrow> real \<Rightarrow> real \<Rightarrow> real \<Rightarrow> real \<Rightarrow> real option result" where
  "theta option_type S K r t sigma =
     bind_err (calc_d1 S K r t sigma) (\<lambda>d1.
       let d2 = d1 - sigma * sqrt t;
           N_d1 = norm_pdf d1;
           N_d2 = norm_cdf d2;
           N_neg_d2 = norm_cdf (- d2)
       in if is_call option_type then
            bind_err (py_div (- S * N_d1 * sigma) (2 * sqrt t)) (\<lambda>decay.
              Inr (Some ((decay - r * K * exp (- r * t) * N_d2) / 365)))
          else if is_put option_type then
            bind_err (py_div (- S * N_d1 * sigma) (2 * sqrt t)) (\<lambda>decay.
              Inr (Some ((decay + r * K * exp (- r * t) * N_neg_d2) / 365)))
          else Inr None)"

definition vega :: "real \<Rightarrow> real \<Rightarrow> real \<Rightarrow> real \<Rightarrow> real \<Rightarrow> real result" where
  "vega S K r t sigma =
     bind_err (calc_d1 S K r t sigma) (\<lambda>d1.
       let N_d1 = norm_pdf d1
       in Inr (S * sqrt t * N_d1 / 100))"

definition rho :: "string \<Rightarrow> real \<Rightarrow> real \<Rightarrow> real \<Rightarrow> real \<Rightarrow> real \<Rightarrow> real option result" where
  "rho option_type S K r t sigma =
     bind_err (calc_d1 S K r t sigma) (\<lambda>d1.
       let d2 = d1 - sigma * sqrt t;
           N_d2 = norm_cdf d2;
           N_neg_d2 = norm_cdf (- d2)
       in if is_call option_type then Inr (Some (K * t * exp (- r * t) * N_d2 / 100))
          else if is_put option_type then Inr (Some (- K * t * exp (- r * t) * N_neg_d2 / 100))
          else Inr None)"

subsection \<open>The object-oriented variant\<close>

record BlackScholesModel =
  option_type :: string
  S :: real
  K :: real
  r :: real
  t :: real
  sigma :: real

definition calculate_d1_d2 :: "BlackScholesModel \<Rightarrow> (real \<times> real) result" where
  "calculate_d1_d2 self =
     bind_err (calc_d1 (S self) (K self) (r self) (t self) (sigma self)) (\<lambda>d1.
       Inr (d1, d1 - sigma self * sqrt (t self)))"

definition calculate_N_values :: "real \<Rightarrow> real \<Rightarrow> real \<times> real \<times> real \<times> real \<times> real" where
  "calculate_N_values d1 d2 =
     (norm_cdf d1, norm_pdf d1, norm_cdf d2, norm_cdf (- d1), norm_cdf (- d2))"

definition calculate_call_price :: "BlackScholesModel \<Rightarrow> real \<Rightarrow> real \<Rightarrow> real" where
  "calculate_call_price self N_d1 N_d2 =
     N_d1 * S self - N_d2 * K self * exp (- r self * t self)"

definition calculate_put_price :: "BlackScholesModel \<Rightarrow> real \<Rightarrow> real \<Rightarrow> real" where
  "calculate_put_price self N_neg_d1 N_neg_d2 =
     K self * exp (- r self * t self) * N_neg_d2 - (S self * N_neg_d1)"

definition calculate_delta :: "BlackScholesModel \<Rightarrow> real \<Rightarrow> real \<Rightarrow> real option" where
  "calculate_delta self N_d1 N_neg_d1 =
     (if is_call (option_type self) then Some N_d1
      else if is_put (option_type self) then Some (- N_neg_d1)
      else None)"

definition calculate_gamma :: "BlackScholesModel \<Rightarrow> real \<Rightarrow> real result" where
  "calculate_gamma self N_d1_gamma_theta_vega =
     py_div N_d1_gamma_theta_vega (S self * sigma self * sqrt (t self))"

text \<open>With a kind outside the enumeration neither branch assigns \<^verbatim>\<open>theta\<close>, and the
  \<^verbatim>\<open>return theta / 365\<close> that follows raises UnboundLocalError.\<close>

definition calculate_theta :: "BlackScholesModel \<Rightarrow> real \<Rightarrow> real \<Rightarrow> real \<Rightarrow> real result" where
  "calculate_theta self N_d1_gamma_theta_vega N_d2 N_neg_d2 =
     (if is_call (option_type self) then
        bind_err (py_div (- S self * N_d1_gamma_theta_vega * sigma self) (2 * sqrt (t self))) (\<lambda>decay.
          Inr ((decay - r self * K self * exp (- r self * t self) * N_d2) / 365))
      else if is_put (option_type self) then
        bind_err (py_div (- S self * N_d1_gamma_theta_vega * sigma self) (2 * sqrt (t self))) (\<lambda>decay.
          Inr ((decay + r self * K self * exp (- r self * t self) * N_neg_d2) / 365))
      else Inl UnboundLocalError)"

definition calculate_vega :: "BlackScholesModel \<Rightarrow> real \<Rightarrow> real" where
  "calculate_vega self N_d1_gamma_theta_vega =
     (S self * sqrt (t self) * N_d1_gamma_theta_vega) / 100"

definition calculate_rho :: "BlackScholesModel \<Rightarrow> real \<Rightarrow> real \<Rightarrow> real option" where
  "calculate_rho self N_d2 N_neg_d2 =
     (if is_call (option_type self) then
        Some ((K self * t self * exp (- r self * t self) * N_d2) / 100)
      else if is_put (option_type self) then
        Some ((- K self * t self * exp (- r self * t self) * N_neg_d2) / 100)
      else None)"

text \<open>The result tuple of \<^verbatim>\<open>calculate_option_metrics\<close>, with named components.\<close>

record metrics =
  call_price :: real
  put_price :: real
  delta_value :: "real option"
  gamma_value :: real
  theta_value :: real
  vega_value :: real
  rho_value :: "real option"

definition calculate_option_metrics :: "BlackScholesModel \<Rightarrow> metrics result" where
  "calculate_option_metrics self =
     bind_err (calculate_d1_d2 self) (\<lambda>(d1, d2).
       case calculate_N_values d1 d2 of
         (N_d1, N_d1_gamma_theta_vega, N_d2, N_neg_d1, N_neg_d2) \<Rightarrow>
           let call_price = calculate_call_price self N_d1 N_d2;
               put_price = calculate_put_price self N_neg_d1 N_neg_d2;
               delta_value = calculate_delta self N_d1 N_neg_d1
           in bind_err (calculate_gamma self N_d1_gamma_theta_vega) (\<lambda>gamma_value.
              bind_err (calculate_theta self N_d1_gamma_theta_vega N_d2 N_neg_d2) (\<lambda>theta_value.
                let vega_value = calculate_vega self N_d1_gamma_theta_vega;
                    rho_value = calculate_rho self N_d2 N_neg_d2
                in Inr \<lparr>call_price = call_price, put_price = put_price,
                        delta_value = delta_value, gamma_value = gamma_value,
                        theta_value = theta_value, vega_value = vega_value,
                        rho_value = rho_value\<rparr>)))"

subsection \<open>The input collectors\<close>

text \<open>
  \<^verbatim>\<open>float(s)\<close> is modelled on plain decimal literals: an optional sign, digits, and an
  optional point followed by digits, with at least one digit. Every other string raises
  ValueError in the model; Python also accepts exponents, underscores, surrounding blanks,
  \<^verbatim>\<open>inf\<close> and \<^verbatim>\<open>nan\<close>, which the theorems below do not rely on.
\<close>

definition is_digit :: "char \<Rightarrow> bool" where
  "is_digit c \<longleftrightarrow> 48 \<le> (of_char c :: nat) \<and> (of_char c :: nat) \<le> 57"

definition digit_val :: "char \<Rightarrow> nat" where
  "digit_val c = of_char c - 48"

definition digits_val :: "string \<Rightarrow> nat" where
  "digits_val ds = foldl (\<lambda>a c. 10 * a + digit_val c) 0 ds"

definition split_sign :: "string \<Rightarrow> real \<times> string" where
  "split_sign s = (case s of
       [] \<Rightarrow> (1, [])
     | c # cs \<Rightarrow> if c = CHR ''-'' then (- 1, cs) else if c = CHR ''+'' then (1, cs) else (1, s))"

definition py_float :: "string \<Rightarrow> real result" where
  "py_float s =
     (case split_sign s of (sg, body) \<Rightarrow>
        let ip = takeWhile is_digit body; rest = dropWhile is_digit body
        in (case rest of
              [] \<Rightarrow> if ip = [] then Inl ValueError else Inr (sg * real (digits_val ip))
            | c # fp \<Rightarrow>
                if c = CHR ''.'' \<and> list_all is_digit fp \<and> (ip \<noteq> [] \<or> fp \<noteq> [])
                then Inr (sg * (real (digits_val ip) + real (digits_val fp) / 10 ^ length fp))
                else Inl ValueError))"

text \<open>\<^verbatim>\<open>str.lower\<close> on ASCII letters, \<^verbatim>\<open>.replace(",", ".")\<close> and \<^verbatim>\<open>.replace("%", "")\<close>.\<close>

definition lower_char :: "char \<Rightarrow> char" where
  "lower_char c =
     (case map_of (zip ''ABCDEFGHIJKLMNOPQRSTUVWXYZ'' ''abcdefghijklmnopqrstuvwxyz'') c of
        Some d \<Rightarrow> d | None \<Rightarrow> c)"

definition lower :: "string \<Rightarrow> string" where
  "lower s = map lower_char s"

definition replace_comma :: "string \<Rightarrow> string" where
  "replace_comma s = map (\<lambda>c. if c = CHR '','' then CHR ''.'' else c) s"

definition remove_percent :: "string \<Rightarrow> string" where
  "remove_percent s = filter (\<lambda>c. c \<noteq> CHR ''%'') s"

text \<open>
  Standard input is the list of the lines still to be read. \<^verbatim>\<open>input\<close> takes the first
  line and raises EOFError when none is left; the prompts and the messages that
  \<^verbatim>\<open>print\<close> writes are not modelled. A computation returns its result or its exception
  together with the lines that remain, so that the \<^verbatim>\<open>except ValueError\<close> of the loop
  goes on reading where the failed attempt stopped.
\<close>

type_synonym 'a io = "string list \<Rightarrow> 'a result \<times> string list"

definition input :: "string io" where
  "input ls = (case ls of [] \<Rightarrow> (Inl EOFError, []) | l # rest \<Rightarrow> (Inr l, rest))"

definition bind_io :: "'a io \<Rightarrow> ('a \<Rightarrow> 'b io) \<Rightarrow> 'b io" where
  "bind_io m f ls = (case m ls of (Inl e, ls') \<Rightarrow> (Inl e, ls') | (Inr v, ls') \<Rightarrow> f v ls')"

definition lift_io :: "'a result \<Rightarrow> 'a io" where
  "lift_io x ls = (x, ls)"

text \<open>
  The rate and the volatility in \<^verbatim>\<open>bs_option_pricer.py\<close>: a string with a percent sign
  loses every percent sign, is converted and divided by 100; any other string is
  converted as it is.
\<close>

definition percent_float :: "string \<Rightarrow> real result" where
  "percent_float s =
     (if CHR ''%'' \<in> set s
      then bind_err (py_float (remove_percent s)) (\<lambda>v. Inr (v / 100))
      else py_float s)"

text \<open>
  The rate and the volatility in \<^verbatim>\<open>bs_option_pricer_oop.py\<close>: the string is converted
  first, and the percent test is made on \<^verbatim>\<open>str\<close> of the resulting float. The text of a
  float never holds a percent sign, so the test is false for every float; the branch
  behind it would call \<^verbatim>\<open>replace\<close> on a float, an AttributeError.
\<close>

definition percent_in_str_of_float :: "real \<Rightarrow> bool" where
  "percent_in_str_of_float x = False"

definition float_percent_oop :: "string \<Rightarrow> real result" where
  "float_percent_oop s =
     bind_err (py_float s) (\<lambda>x.
       if percent_in_str_of_float x then Inl AttributeError else Inr x)"

type_synonym params = "string \<times> real \<times> real \<times> real \<times> real \<times> real"

definition input_option_type :: "string io" where
  "input_option_type =
     bind_io input (\<lambda>s.
       let option_type = lower s in
       if option_type \<notin> set [''c'', ''call'', ''p'', ''put''] then lift_io (Inl ValueError)
       else lift_io (Inr option_type))"

definition input_float :: "real io" where
  "input_float = bind_io input (\<lambda>s. lift_io (py_float (replace_comma s)))"

definition input_rate :: "(string \<Rightarrow> real result) \<Rightarrow> real io" where
  "input_rate rate_of = bind_io input (\<lambda>s. lift_io (rate_of (replace_comma s)))"

text \<open>
  The body of the \<^verbatim>\<open>try\<close> block. The two modules differ only in how the rate and the
  volatility strings are converted, which is the parameter \<open>rate_of\<close>.
\<close>

definition get_input_body :: "(string \<Rightarrow> real result) \<Rightarrow> params io" where
  "get_input_body rate_of =
     bind_io input_option_type (\<lambda>option_type.
     bind_io input_float (\<lambda>S.
     bind_io input_float (\<lambda>K.
     bind_io (input_rate rate_of) (\<lambda>r.
     bind_io input_float (\<lambda>t0.
       let t = (if t0 > 1 then t0 / 365 else t0) in
     bind_io (input_rate rate_of) (\<lambda>sigma.
       lift_io (Inr (option_type, S, K, r, t, sigma))))))))"

text \<open>An attempt that ends in ValueError has read at least one line, so the
  \<^verbatim>\<open>while True\<close> loop terminates on every finite input.\<close>

definition consumes :: "'a io \<Rightarrow> bool" where
  "consumes m \<longleftrightarrow> (\<forall>ls. length (snd (m ls)) \<le> length ls)"

lemma consumes_input: "consumes input"
  by (auto simp: consumes_def input_def split: list.splits)

lemma consumes_lift: "consumes (lift_io x)"
  by (simp add: consumes_def lift_io_def)

lemma consumes_bind: "consumes m \<Longrightarrow> (\<And>v. consumes (f v)) \<Longrightarrow> consumes (bind_io m f)"
  unfolding consumes_def bind_io_def
  by (auto split: prod.splits sum.splits) (metis order_trans snd_conv)+

lemma consumes_float: "consumes input_float"
  unfolding input_float_def by (rule consumes_bind [OF consumes_input]) (rule consumes_lift)

lemma consumes_rate: "consumes (input_rate rate_of)"
  unfolding input_rate_def by (rule consumes_bind [OF consumes_input]) (rule consumes_lift)

lemma option_type_shorter:
  "input_option_type ls = (res, ls') \<Longrightarrow> res \<noteq> Inl EOFError \<Longrightarrow> length ls' < length ls"
  unfolding input_option_type_def Let_def bind_io_def input_def lift_io_def
  by (cases ls) (auto split: if_splits)

lemma body_retry_shorter:
  assumes "get_input_body rate_of ls = (Inl ValueError, ls')"
  shows "length ls' < length ls"
proof (cases "input_option_type ls")
  case (Pair res l1)
  show ?thesis
  proof (cases res)
    case (Inl e)
    with Pair assms have "e = ValueError" "ls' = l1"
      by (auto simp: get_input_body_def bind_io_def)
    with Pair Inl show ?thesis
      using option_type_shorter [of ls res l1] by simp
  next
    case (Inr ot)
    define rest where "rest = (\<lambda>option_type :: string.
     bind_io input_float (\<lambda>S.
     bind_io input_float (\<lambda>K.
     bind_io (input_rate rate_of) (\<lambda>r.
     bind_io input_float (\<lambda>t0.
       let t = (if t0 > 1 then t0 / 365 else t0) in
     bind_io (input_rate rate_of) (\<lambda>sigma.
       lift_io (Inr (option_type, S, K, r, t, sigma :: real))))))))"
    have "consumes (rest ot)"
      unfolding rest_def Let_def
      by (intro consumes_bind consumes_float consumes_rate consumes_lift)
    then have "length (snd (rest ot l1)) \<le> length l1"
      by (simp add: consumes_def)
    moreover have "get_input_body rate_of ls = rest ot l1"
      using Pair Inr by (simp add: get_input_body_def rest_def bind_io_def)
    moreover have "length l1 < length ls"
      using option_type_shorter [of ls res l1] Pair Inr by simp
    ultimately show ?thesis
      using assms by (metis snd_conv order_le_less_trans)
  qed
qed

function get_input_loop :: "(string \<Rightarrow> real result) \<Rightarrow> params io" where
  "get_input_loop rate_of ls =
     (case get_input_body rate_of ls of
        (res, ls') \<Rightarrow> if res = Inl ValueError then get_input_loop rate_of ls' else (res, ls'))"
  by pat_completeness auto
termination
  by (relation "measure (\<lambda>(f, ls). length ls)") (auto dest: body_retry_shorter [OF sym])

text \<open>\<^verbatim>\<open>get_input\<close> of \<^verbatim>\<open>bs_option_pricer.py\<close> and of \<^verbatim>\<open>bs_option_pricer_oop.py\<close>.\<close>

definition get_input :: "params io" where
  "get_input = get_input_loop percent_float"

definition get_input_oop :: "params io" where
  "get_input_oop = get_input_loop float_percent_oop"

section \<open>The standard normal distribution function\<close>

text \<open>
  Auxiliary notions for the analysis of \<open>norm_cdf\<close>: the coefficients of the series in
  the variable \<open>x\<^sup>2\<close>, the antiderivatives of the powers of the cosine with their values
  at \<open>pi / 2\<close> (the Wallis integrals), and the antiderivative of
  \<open>(1 + x\<^sup>2 / (2 (k + 1))) ^ (- (k + 1))\<close>, which dominates the Gaussian density.
\<close>

definition gauss_coeff :: "nat \<Rightarrow> real" where
  "gauss_coeff n = (- 1) ^ n / (2 ^ n * fact n * real (2 * n + 1))"

definition gauss_series :: "real \<Rightarrow> real" where
  "gauss_series y = (\<Sum>n. gauss_coeff n * y ^ n)"

fun cos_int :: "nat \<Rightarrow> real \<Rightarrow> real" where
  "cos_int 0 x = x"
| "cos_int (Suc 0) x = sin x"
| "cos_int (Suc (Suc m)) x = (cos x ^ Suc m * sin x + real (Suc m) * cos_int m x) / real (Suc (Suc m))"

definition wallis :: "nat \<Rightarrow> real" where
  "wallis m = cos_int m (pi / 2)"

definition gauss_majorant :: "nat \<Rightarrow> real \<Rightarrow> real" where
  "gauss_majorant k x =
     sqrt (2 * real (Suc k)) * cos_int (2 * k) (arctan (x / sqrt (2 * real (Suc k))))"

definition gauss_abs_term :: "real \<Rightarrow> nat \<Rightarrow> real" where
  "gauss_abs_term x n = x ^ (2 * n + 1) / (2 ^ n * fact n * real (2 * n + 1))"

subsection \<open>The series and its derivative\<close>

lemma gauss_coeff_summable: "summable (\<lambda>n. gauss_coeff n * y ^ n)"
proof (rule summable_comparison_test')
  show "summable (\<lambda>n. inverse (fact n) * \<bar>y\<bar> ^ n)"
    by (rule summable_exp)
  fix n :: nat
  have "(1::real) \<le> 2 ^ n * real (2 * n + 1)"
  proof -
    have "(1::real) * 1 \<le> 2 ^ n * real (2 * n + 1)"
      by (rule mult_mono) simp_all
    then show ?thesis by simp
  qed
  then have "fact n \<le> 2 ^ n * real (2 * n + 1) * (fact n :: real)"
    by (simp add: mult_le_cancel_right1)
  then have "inverse (2 ^ n * fact n * real (2 * n + 1)) \<le> inverse (fact n :: real)"
    by (intro le_imp_inverse_le) (simp_all add: mult_ac)
  then have "\<bar>y\<bar> ^ n * inverse (2 ^ n * fact n * real (2 * n + 1)) \<le> \<bar>y\<bar> ^ n * inverse (fact n)"
    by (intro mult_left_mono) simp_all
  then show "norm (gauss_coeff n * y ^ n) \<le> inverse (fact n) * \<bar>y\<bar> ^ n"
    by (simp add: gauss_coeff_def abs_mult power_abs divide_inverse mult_ac)
qed

lemma gauss_term_eq: "gauss_term x n = x * (gauss_coeff n * (x\<^sup>2) ^ n)"
  by (simp add: gauss_term_def gauss_coeff_def power_mult)

lemma gauss_int_eq: "gauss_int x = x * gauss_series (x\<^sup>2)"
  unfolding gauss_int_def gauss_series_def gauss_term_eq
  by (rule suminf_mult) (rule gauss_coeff_summable)

lemma gauss_int_0: "gauss_int 0 = 0"
  by (simp add: gauss_int_eq)

lemma gauss_int_minus: "gauss_int (- x) = - gauss_int x"
  by (simp add: gauss_int_eq)

lemma gauss_series_deriv:
  "(gauss_series has_field_derivative (\<Sum>n. diffs gauss_coeff n * y ^ n)) (at y)"
  unfolding gauss_series_def
  by (rule termdiffs_strong_converges_everywhere) (rule gauss_coeff_summable)

lemma gauss_series_ode:
  "gauss_series y + 2 * y * (\<Sum>n. diffs gauss_coeff n * y ^ n) = exp (- y / 2)"
proof -
  have s0: "(\<lambda>n. gauss_coeff n * y ^ n) sums gauss_series y"
    unfolding gauss_series_def by (rule summable_sums) (rule gauss_coeff_summable)
  have "summable (\<lambda>n. diffs gauss_coeff n * y ^ n)"
    using gauss_coeff_summable by (rule termdiff_converges_all)
  then have "(\<lambda>n. 2 * y * (diffs gauss_coeff n * y ^ n)) sums
             (2 * y * (\<Sum>n. diffs gauss_coeff n * y ^ n))"
    by (intro sums_mult summable_sums)
  then have "(\<lambda>n. 2 * real (Suc n) * gauss_coeff (Suc n) * y ^ Suc n) sums
             (2 * y * (\<Sum>n. diffs gauss_coeff n * y ^ n))"
    by (simp add: diffs_def mult_ac)
  then have s1: "(\<lambda>n. 2 * real n * gauss_coeff n * y ^ n) sums
             (2 * y * (\<Sum>n. diffs gauss_coeff n * y ^ n))"
    using sums_Suc_iff [of "\<lambda>n. 2 * real n * gauss_coeff n * y ^ n"] by simp
  have tm: "gauss_coeff n * y ^ n + 2 * real n * gauss_coeff n * y ^ n = (- y / 2) ^ n /\<^sub>R fact n"
    for n
  proof -
    have "gauss_coeff n * y ^ n + 2 * real n * gauss_coeff n * y ^ n
          = (real (2 * n + 1) * gauss_coeff n) * y ^ n"
      by (simp add: algebra_simps)
    also have "real (2 * n + 1) * gauss_coeff n = (- 1) ^ n / (2 ^ n * fact n)"
      by (simp add: gauss_coeff_def)
    also have "(- 1) ^ n / (2 ^ n * fact n) * y ^ n = (- y / 2) ^ n /\<^sub>R fact n"
    proof -
      have "(- y / 2) ^ n = (- 1) ^ n * y ^ n / 2 ^ n"
        by (simp add: power_divide power_minus [of "y / 2"])
      then show ?thesis
        by (simp add: field_simps)
    qed
    finally show ?thesis .
  qed
  have "(\<lambda>n. (- y / 2) ^ n /\<^sub>R fact n) sums
          (gauss_series y + 2 * y * (\<Sum>n. diffs gauss_coeff n * y ^ n))"
    using sums_add [OF s0 s1] by (simp only: tm)
  then show ?thesis
    using exp_converges [of "- y / 2"] by (rule sums_unique2)
qed

lemma gauss_int_deriv: "(gauss_int has_field_derivative exp (- x\<^sup>2 / 2)) (at x)"
proof -
  let ?g' = "\<lambda>y. \<Sum>n. diffs gauss_coeff n * y ^ n"
  have "((\<lambda>x. gauss_series (x\<^sup>2)) has_field_derivative ?g' (x\<^sup>2) * (2 * x)) (at x)"
    by (rule DERIV_chain' [OF _ gauss_series_deriv]) (auto intro!: derivative_eq_intros)
  then have "((\<lambda>x. x * gauss_series (x\<^sup>2)) has_field_derivative
          (1 * gauss_series (x\<^sup>2) + ?g' (x\<^sup>2) * (2 * x) * x)) (at x)"
    by (rule DERIV_mult [OF DERIV_ident])
  moreover have "1 * gauss_series (x\<^sup>2) + ?g' (x\<^sup>2) * (2 * x) * x = exp (- x\<^sup>2 / 2)"
    using gauss_series_ode [of "x\<^sup>2"] by (simp add: power2_eq_square mult_ac)
  moreover have "(\<lambda>x. x * gauss_series (x\<^sup>2)) = gauss_int"
    by (rule ext) (simp add: gauss_int_eq)
  ultimately show ?thesis by simp
qed

lemma gauss_int_mono: "x \<le> y \<Longrightarrow> gauss_int x \<le> gauss_int y"
  by (rule DERIV_nonneg_imp_nondecreasing [where f = gauss_int])
     (auto intro!: exI [where x = "exp (- u\<^sup>2 / 2)" for u] gauss_int_deriv)

lemma gauss_int_nonneg: "0 \<le> x \<Longrightarrow> 0 \<le> gauss_int x"
  using gauss_int_mono [of 0 x] by (simp add: gauss_int_0)

subsection \<open>Wallis integrals\<close>

lemma cos_int_deriv: "(cos_int m has_field_derivative cos x ^ m) (at x)"
proof (induction m x rule: cos_int.induct)
  case (1 x)
  show ?case by (simp add: cos_int.simps [abs_def])
next
  case (2 x)
  show ?case by (auto simp: cos_int.simps [abs_def] intro!: derivative_eq_intros)
next
  case (3 m x)
  have p: "((\<lambda>x. cos x ^ Suc m) has_field_derivative real (Suc m) * cos x ^ m * (- sin x)) (at x)"
    using DERIV_power [OF DERIV_cos, where n = "Suc m" and x = x] by (simp add: mult_ac)
  have q: "((\<lambda>x. cos x ^ Suc m * sin x) has_field_derivative
             real (Suc m) * cos x ^ m * (- sin x) * sin x + cos x * cos x ^ Suc m) (at x)"
    by (rule DERIV_mult [OF p DERIV_sin])
  have c: "((\<lambda>x. real (Suc m) * cos_int m x) has_field_derivative real (Suc m) * cos x ^ m) (at x)"
    by (rule DERIV_cmult [OF "3.IH"])
  have "((\<lambda>x. (cos x ^ Suc m * sin x + real (Suc m) * cos_int m x) / real (Suc (Suc m)))
          has_field_derivative
          ((real (Suc m) * cos x ^ m * (- sin x) * sin x + cos x * cos x ^ Suc m)
            + real (Suc m) * cos x ^ m) / real (Suc (Suc m))) (at x)"
    by (rule DERIV_cdivide [OF DERIV_add [OF q c]])
  moreover have "((real (Suc m) * cos x ^ m * (- sin x) * sin x + cos x * cos x ^ Suc m)
            + real (Suc m) * cos x ^ m) / real (Suc (Suc m)) = cos x ^ Suc (Suc m)"
  proof -
    have s: "sin x * sin x = 1 - cos x * cos x"
      using sin_cos_squared_add [of x] by (simp add: power2_eq_square algebra_simps)
    have "(real (Suc m) * cos x ^ m * (- sin x) * sin x + cos x * cos x ^ Suc m)
            + real (Suc m) * cos x ^ m
          = real (Suc m) * cos x ^ m * (1 - sin x * sin x) + cos x * cos x ^ Suc m"
      by (simp add: algebra_simps)
    also have "\<dots> = real (Suc (Suc m)) * cos x ^ Suc (Suc m)"
      unfolding s by (simp add: algebra_simps)
    finally show ?thesis by simp
  qed
  ultimately show ?case
    by (simp add: cos_int.simps(3) [abs_def])
qed

lemma cos_int_0: "cos_int m 0 = 0"
  by (induction m "0::real" rule: cos_int.induct) simp_all

lemma wallis_0: "wallis 0 = pi / 2"
  by (simp add: wallis_def)

lemma wallis_1: "wallis (Suc 0) = 1"
  by (simp add: wallis_def)

lemma wallis_step: "wallis (Suc (Suc m)) = real (Suc m) / real (Suc (Suc m)) * wallis m"
  by (simp add: wallis_def)

lemma wallis_product: "real (Suc m) * wallis m * wallis (Suc m) = pi / 2"
proof (induction m)
  case 0
  show ?case by (simp add: wallis_0 wallis_1)
next
  case (Suc m)
  have "real (Suc (Suc m)) * wallis (Suc m) * wallis (Suc (Suc m))
        = real (Suc m) * wallis m * wallis (Suc m)"
    unfolding wallis_step by simp
  also note Suc
  finally show ?case .
qed

lemma cos_int_mono:
  assumes "0 \<le> a" "a \<le> b" "b \<le> pi / 2"
  shows "cos_int m a \<le> cos_int m b"
proof (rule DERIV_nonneg_imp_nondecreasing [OF assms(2)])
  fix x assume "a \<le> x" "x \<le> b"
  then have "0 \<le> cos x"
    using assms by (intro cos_ge_zero) auto
  then have "0 \<le> cos x ^ m" by simp
  then show "\<exists>y. (cos_int m has_real_derivative y) (at x) \<and> 0 \<le> y"
    using cos_int_deriv by blast
qed

lemma wallis_nonneg: "0 \<le> wallis m"
  using cos_int_mono [of 0 "pi / 2" m] by (simp add: wallis_def cos_int_0)

lemma wallis_decreasing: "wallis (Suc m) \<le> wallis m"
proof -
  have "cos_int m 0 - cos_int (Suc m) 0 \<le> cos_int m (pi / 2) - cos_int (Suc m) (pi / 2)"
  proof (rule DERIV_nonneg_imp_nondecreasing [where f = "\<lambda>x. cos_int m x - cos_int (Suc m) x"])
    show "(0::real) \<le> pi / 2" by simp
    fix x :: real assume x: "0 \<le> x" "x \<le> pi / 2"
    then have c0: "0 \<le> cos x"
      by (intro cos_ge_zero) auto
    have "cos x ^ Suc m \<le> cos x ^ m"
      using c0 cos_le_one [of x] by (simp add: mult_left_le_one_le)
    moreover have "((\<lambda>x. cos_int m x - cos_int (Suc m) x) has_real_derivative
                     cos x ^ m - cos x ^ Suc m) (at x)"
      by (intro derivative_intros cos_int_deriv)
    ultimately show "\<exists>y. ((\<lambda>x. cos_int m x - cos_int (Suc m) x) has_real_derivative y) (at x) \<and> 0 \<le> y"
      by (intro exI [where x = "cos x ^ m - cos x ^ Suc m"]) simp
  qed
  then show ?thesis by (simp add: wallis_def cos_int_0)
qed

lemma wallis_square_bound: "(wallis (Suc m))\<^sup>2 \<le> pi / (2 * real (Suc m))"
proof -
  have "(wallis (Suc m))\<^sup>2 \<le> wallis m * wallis (Suc m)"
    unfolding power2_eq_square
    by (rule mult_right_mono [OF wallis_decreasing wallis_nonneg])
  also have "\<dots> = pi / (2 * real (Suc m))"
    using wallis_product [of m] by (simp add: field_simps)
  finally show ?thesis .
qed

subsection \<open>The distribution function lies between 0 and 1\<close>

lemma cos_arctan_power: "cos (arctan u) ^ (2 * k) = (1 / (1 + u\<^sup>2)) ^ k"
proof -
  have "(cos (arctan u))\<^sup>2 = 1 / (1 + u\<^sup>2)"
    by (simp add: cos_arctan power_divide add_nonneg_pos)
  then show ?thesis
    by (simp add: power_mult)
qed

lemma gauss_majorant_deriv:
  "(gauss_majorant k has_field_derivative (1 / (1 + x\<^sup>2 / (2 * real (Suc k)))) ^ Suc k) (at x)"
proof -
  define c where "c = sqrt (2 * real (Suc k))"
  have c: "0 < c" "c\<^sup>2 = 2 * real (Suc k)"
    by (simp_all add: c_def)
  have a: "((\<lambda>x. arctan (x / c)) has_field_derivative (1 / (1 + (x / c)\<^sup>2)) * (1 / c)) (at x)"
    by (rule DERIV_chain' [OF DERIV_cdivide [OF DERIV_ident] DERIV_arctan [unfolded inverse_eq_divide]])
  have "((\<lambda>x. cos_int (2 * k) (arctan (x / c))) has_field_derivative
          cos (arctan (x / c)) ^ (2 * k) * ((1 / (1 + (x / c)\<^sup>2)) * (1 / c))) (at x)"
    by (rule DERIV_chain' [OF a cos_int_deriv])
  then have "((\<lambda>x. c * cos_int (2 * k) (arctan (x / c))) has_field_derivative
          c * (cos (arctan (x / c)) ^ (2 * k) * ((1 / (1 + (x / c)\<^sup>2)) * (1 / c)))) (at x)"
    by (rule DERIV_cmult)
  moreover have "c * (cos (arctan (x / c)) ^ (2 * k) * ((1 / (1 + (x / c)\<^sup>2)) * (1 / c)))
                 = (1 / (1 + x\<^sup>2 / (2 * real (Suc k)))) ^ Suc k"
    using c by (simp add: cos_arctan_power power_divide)
  moreover have "(\<lambda>x. c * cos_int (2 * k) (arctan (x / c))) = gauss_majorant k"
    by (rule ext) (simp add: gauss_majorant_def c_def)
  ultimately show ?thesis by simp
qed

lemma exp_le_majorant: "exp (- x\<^sup>2 / 2) \<le> (1 / (1 + x\<^sup>2 / (2 * real (Suc k)))) ^ Suc k"
proof -
  define u where "u = x\<^sup>2 / (2 * real (Suc k))"
  have u: "0 \<le> u" "real (Suc k) * u = x\<^sup>2 / 2"
    by (simp_all add: u_def del: of_nat_Suc)
  have "(1 + u) ^ Suc k \<le> exp u ^ Suc k"
    using u(1) by (intro power_mono) (simp_all add: add_nonneg_nonneg)
  also have "\<dots> = exp (x\<^sup>2 / 2)"
    using u(2) by (simp only: exp_of_nat_mult [symmetric])
  finally have "inverse (exp (x\<^sup>2 / 2)) \<le> inverse ((1 + u) ^ Suc k)"
    using u(1) by (intro le_imp_inverse_le zero_less_power) simp_all
  then show ?thesis
    by (simp add: exp_minus u_def power_divide inverse_eq_divide)
qed

lemma gauss_int_le_majorant:
  assumes "0 \<le> x"
  shows "gauss_int x \<le> gauss_majorant k x"
proof -
  have "gauss_majorant k 0 - gauss_int 0 \<le> gauss_majorant k x - gauss_int x"
  proof (rule DERIV_nonneg_imp_nondecreasing [where f = "\<lambda>x. gauss_majorant k x - gauss_int x", OF assms])
    fix y :: real
    have "((\<lambda>x. gauss_majorant k x - gauss_int x) has_real_derivative
            (1 / (1 + y\<^sup>2 / (2 * real (Suc k)))) ^ Suc k - exp (- y\<^sup>2 / 2)) (at y)"
      by (rule DERIV_diff [OF gauss_majorant_deriv gauss_int_deriv])
    then show "\<exists>d. ((\<lambda>x. gauss_majorant k x - gauss_int x) has_real_derivative d) (at y) \<and> 0 \<le> d"
      using exp_le_majorant [of y k] by (intro exI conjI) (assumption, simp)
  qed
  then show ?thesis
    by (simp add: gauss_majorant_def gauss_int_0 cos_int_0)
qed

lemma gauss_majorant_le_wallis:
  assumes "0 \<le> x"
  shows "gauss_majorant k x \<le> sqrt (2 * real (Suc k)) * wallis (2 * k)"
proof -
  have "0 \<le> arctan (x / sqrt (2 * real (Suc k)))"
    using assms by simp
  moreover have "arctan (x / sqrt (2 * real (Suc k))) \<le> pi / 2"
    using arctan_ubound [of "x / sqrt (2 * real (Suc k))"] by simp
  ultimately have "cos_int (2 * k) (arctan (x / sqrt (2 * real (Suc k)))) \<le> wallis (2 * k)"
    unfolding wallis_def by (intro cos_int_mono) simp_all
  then show ?thesis
    unfolding gauss_majorant_def by (intro mult_left_mono) simp_all
qed

lemma gauss_int_square_bound:
  assumes "0 \<le> x"
  shows "(gauss_int x)\<^sup>2 \<le> pi / 2 * (1 + 1 / real (Suc k))"
proof -
  have "gauss_int x \<le> sqrt (2 * real (Suc (Suc k))) * wallis (Suc (2 * k + 1))"
    using gauss_int_le_majorant [OF assms, of "Suc k"] gauss_majorant_le_wallis [OF assms, of "Suc k"]
    by simp
  then have "(gauss_int x)\<^sup>2 \<le> (sqrt (2 * real (Suc (Suc k))) * wallis (Suc (2 * k + 1)))\<^sup>2"
    using gauss_int_nonneg [OF assms] by (intro power_mono) simp_all
  also have "\<dots> = 2 * real (Suc (Suc k)) * (wallis (Suc (2 * k + 1)))\<^sup>2"
    by (simp add: power_mult_distrib)
  also have "\<dots> \<le> 2 * real (Suc (Suc k)) * (pi / (2 * real (Suc (2 * k + 1))))"
    by (intro mult_left_mono wallis_square_bound) simp
  also have "\<dots> = pi / 2 * (1 + 1 / real (Suc k))"
    by (simp add: field_simps)
  finally show ?thesis .
qed

lemma gauss_int_square_le:
  assumes "0 \<le> x"
  shows "(gauss_int x)\<^sup>2 \<le> pi / 2"
proof (rule ccontr)
  assume "\<not> (gauss_int x)\<^sup>2 \<le> pi / 2"
  then have d: "0 < (gauss_int x)\<^sup>2 - pi / 2" by simp
  define e where "e = (gauss_int x)\<^sup>2 - pi / 2"
  obtain k :: nat where k: "pi / 2 / e < real k"
    using reals_Archimedean2 by blast
  have "e \<le> pi / 2 * (1 / real (Suc k))"
    using gauss_int_square_bound [OF assms, of k] by (simp add: e_def algebra_simps)
  then have "e * real (Suc k) \<le> pi / 2"
    by (simp add: field_simps)
  moreover have "pi / 2 < e * real k"
    using k d by (simp add: e_def field_simps)
  moreover have "e * real k \<le> e * real (Suc k)"
    using d by (simp add: e_def)
  ultimately show False by linarith
qed

lemma gauss_int_le: "gauss_int x \<le> sqrt (2 * pi) / 2"
proof (cases "0 \<le> x")
  case True
  have "gauss_int x \<le> sqrt (pi / 2)"
    using gauss_int_square_le [OF True] by (rule real_le_rsqrt)
  also have "sqrt (pi / 2) = sqrt (2 * pi) / 2"
    by (simp add: real_sqrt_divide real_div_sqrt) (simp add: real_sqrt_mult field_simps)
  finally show ?thesis .
next
  case False
  then have "gauss_int x \<le> gauss_int 0"
    by (intro gauss_int_mono) simp
  then show ?thesis
    by (simp add: gauss_int_0 order_trans [where y = 0])
qed

lemma gauss_int_ge: "- (sqrt (2 * pi) / 2) \<le> gauss_int x"
  using gauss_int_le [of "- x"] by (simp add: gauss_int_minus)

lemma norm_cdf_minus: "norm_cdf (- x) = 1 - norm_cdf x"
  by (simp add: norm_cdf_def gauss_int_minus)

lemma norm_cdf_le_1: "norm_cdf x \<le> 1"
proof -
  have "gauss_int x / sqrt (2 * pi) \<le> (sqrt (2 * pi) / 2) / sqrt (2 * pi)"
    by (intro divide_right_mono gauss_int_le) simp
  also have "(sqrt (2 * pi) / 2) / sqrt (2 * pi) = 1 / 2"
    by simp
  finally show ?thesis
    unfolding norm_cdf_def by linarith
qed

lemma norm_cdf_ge_0: "0 \<le> norm_cdf x"
  using norm_cdf_le_1 [of "- x"] by (simp add: norm_cdf_minus)

lemma norm_cdf_deriv: "(norm_cdf has_field_derivative norm_pdf x) (at x)"
proof -
  have "((\<lambda>x. gauss_int x / sqrt (2 * pi)) has_field_derivative exp (- x\<^sup>2 / 2) / sqrt (2 * pi)) (at x)"
    by (rule DERIV_cdivide [OF gauss_int_deriv])
  then have "((\<lambda>x. 1 / 2 + gauss_int x / sqrt (2 * pi)) has_field_derivative
               0 + exp (- x\<^sup>2 / 2) / sqrt (2 * pi)) (at x)"
    by (rule DERIV_add [OF DERIV_const])
  then show ?thesis
    by (simp add: norm_cdf_def [abs_def] norm_pdf_def)
qed

lemma norm_cdf_0: "norm_cdf 0 = 1 / 2"
  by (simp add: norm_cdf_def gauss_int_0)

text \<open>
  So \<open>norm_cdf\<close> is the antiderivative of the standard normal density with the value
  \<open>1 / 2\<close> at \<open>0\<close>, which determines it; it maps \<open>- x\<close> to \<open>1 - norm_cdf x\<close> and takes
  its values between 0 and 1.
\<close>

section \<open>Rational enclosures\<close>

text \<open>
  Partial sums enclose \<open>exp (- x)\<close>, the series of \<open>gauss_int\<close> and the arc tangent
  from both sides; with Machin's formula for \<open>pi\<close> they give the decimal bounds that the
  reference values of the specification need.
\<close>

lemma exp_neg_lower:
  fixes x :: real
  assumes "0 \<le> x"
  shows "(\<Sum>m<2 * n. (- x) ^ m / fact m) \<le> exp (- x)"
proof -
  obtain u where u: "exp (- x) = (\<Sum>m<2 * n. (- x) ^ m / fact m) + exp u / fact (2 * n) * (- x) ^ (2 * n)"
    using Maclaurin_exp_le [of "- x" "2 * n"] by blast
  have "0 \<le> exp u / fact (2 * n) * (- x) ^ (2 * n)"
    by (intro mult_nonneg_nonneg) (simp_all add: power_mult)
  with u show ?thesis by linarith
qed

lemma exp_neg_upper:
  fixes x :: real
  assumes "0 \<le> x"
  shows "exp (- x) \<le> (\<Sum>m<2 * n + 1. (- x) ^ m / fact m)"
proof -
  obtain u where u: "exp (- x) = (\<Sum>m<2 * n + 1. (- x) ^ m / fact m)
      + exp u / fact (2 * n + 1) * (- x) ^ (2 * n + 1)"
    using Maclaurin_exp_le [of "- x" "2 * n + 1"] by blast
  have "(- x) ^ (2 * n + 1) = - (x ^ (2 * n + 1))"
    by (simp add: power_mult)
  moreover have "0 \<le> exp u / fact (2 * n + 1) * x ^ (2 * n + 1)"
    using assms by (intro mult_nonneg_nonneg) simp_all
  ultimately have "exp u / fact (2 * n + 1) * (- x) ^ (2 * n + 1) \<le> 0"
    by simp
  with u show ?thesis by linarith
qed

lemma gauss_term_alt: "gauss_term x n = (- 1) ^ n * gauss_abs_term x n"
  by (simp add: gauss_term_def gauss_abs_term_def)

lemma gauss_term_summable: "summable (gauss_term x)"
proof -
  have "summable (\<lambda>n. x * (gauss_coeff n * (x\<^sup>2) ^ n))"
    by (rule summable_mult) (rule gauss_coeff_summable)
  then show ?thesis
    by (simp add: gauss_term_eq [abs_def])
qed

lemma gauss_abs_term_zero:
  assumes "0 \<le> x"
  shows "gauss_abs_term x \<longlonglongrightarrow> 0"
proof -
  have "gauss_term x \<longlonglongrightarrow> 0"
    by (rule summable_LIMSEQ_zero) (rule gauss_term_summable)
  then have "(\<lambda>n. \<bar>gauss_term x n\<bar>) \<longlonglongrightarrow> 0"
    by (simp add: tendsto_rabs_zero_iff)
  moreover have "\<bar>gauss_term x n\<bar> = gauss_abs_term x n" for n
    using assms by (simp add: gauss_term_def gauss_abs_term_def abs_mult power_abs)
  ultimately show ?thesis by simp
qed

lemma gauss_abs_term_mono:
  assumes "0 \<le> x" "x \<le> 1"
  shows "gauss_abs_term x (Suc n) \<le> gauss_abs_term x n"
proof -
  have num0: "0 \<le> x ^ (2 * n + 1)"
    using assms by simp
  have num: "x ^ (2 * Suc n + 1) \<le> x ^ (2 * n + 1)"
    using assms by (intro power_decreasing) simp_all
  have den0: "0 < 2 ^ n * fact n * real (2 * n + 1)"
    by simp
  have "2 ^ n * fact n * real (2 * n + 1) \<le> (2 ^ Suc n * fact n) * real (2 * Suc n + 1)"
    by (intro mult_mono) simp_all
  also have "\<dots> \<le> 2 ^ Suc n * fact (Suc n) * real (2 * Suc n + 1)"
    by (intro mult_right_mono mult_left_mono) (simp_all add: fact_mono)
  finally have den: "2 ^ n * fact n * real (2 * n + 1)
      \<le> 2 ^ Suc n * fact (Suc n) * real (2 * Suc n + 1)" .
  show ?thesis
    unfolding gauss_abs_term_def by (rule frac_le [OF num0 num den0 den])
qed

lemma gauss_int_lower:
  assumes "0 \<le> x" "x \<le> 1"
  shows "(\<Sum>i<2 * n. gauss_term x i) \<le> gauss_int x"
  unfolding gauss_int_def gauss_term_alt [abs_def]
  using assms
  by (intro summable_Leibniz'(2) gauss_abs_term_zero gauss_abs_term_mono)
     (simp_all add: gauss_abs_term_def)

lemma gauss_int_upper:
  assumes "0 \<le> x" "x \<le> 1"
  shows "gauss_int x \<le> (\<Sum>i<2 * n + 1. gauss_term x i)"
  unfolding gauss_int_def gauss_term_alt [abs_def]
  using assms
  by (intro summable_Leibniz'(4) gauss_abs_term_zero gauss_abs_term_mono)
     (simp_all add: gauss_abs_term_def)

lemma arctan_enclosure:
  fixes x :: real
  assumes "0 < x" "x \<le> 1"
  shows "(\<Sum>i<2 * n. (- 1) ^ i * (1 / real (i * 2 + 1) * x ^ (i * 2 + 1))) \<le> arctan x"
    and "arctan x \<le> (\<Sum>i<2 * n + 1. (- 1) ^ i * (1 / real (i * 2 + 1) * x ^ (i * 2 + 1)))"
proof -
  have ax: "\<bar>x\<bar> \<le> 1"
    using assms by simp
  have "0 < 1 / real (0 * 2 + 1) * x ^ (0 * 2 + 1)"
    using assms by simp
  then have "arctan x \<in> {(\<Sum>i<2 * n. (- 1) ^ i * (1 / real (i * 2 + 1) * x ^ (i * 2 + 1))) ..
                          (\<Sum>i<2 * n + 1. (- 1) ^ i * (1 / real (i * 2 + 1) * x ^ (i * 2 + 1)))}"
    using summable_Leibniz(2) [OF zeroseq_arctan_series [OF ax] monoseq_arctan_series [OF ax]]
    unfolding arctan_series [OF ax] by blast
  then show "(\<Sum>i<2 * n. (- 1) ^ i * (1 / real (i * 2 + 1) * x ^ (i * 2 + 1))) \<le> arctan x"
    and "arctan x \<le> (\<Sum>i<2 * n + 1. (- 1) ^ i * (1 / real (i * 2 + 1) * x ^ (i * 2 + 1)))"
    by simp_all
qed

lemma pi_enclosure: "314159265358 / 10 ^ 11 < pi" "pi < 31415926536 / 10 ^ 10"
proof -
  have a5l: "(\<Sum>i<2 * 4. (- 1) ^ i * (1 / real (i * 2 + 1) * (1 / 5) ^ (i * 2 + 1))) \<le> arctan (1 / 5 :: real)"
    by (rule arctan_enclosure(1)) simp_all
  have a5u: "arctan (1 / 5 :: real) \<le> (\<Sum>i<2 * 4 + 1. (- 1) ^ i * (1 / real (i * 2 + 1) * (1 / 5) ^ (i * 2 + 1)))"
    by (rule arctan_enclosure(2)) simp_all
  have a239l: "(\<Sum>i<2 * 1. (- 1) ^ i * (1 / real (i * 2 + 1) * (1 / 239) ^ (i * 2 + 1))) \<le> arctan (1 / 239 :: real)"
    by (rule arctan_enclosure(1)) simp_all
  have a239u: "arctan (1 / 239 :: real) \<le> (\<Sum>i<2 * 1 + 1. (- 1) ^ i * (1 / real (i * 2 + 1) * (1 / 239) ^ (i * 2 + 1)))"
    by (rule arctan_enclosure(2)) simp_all
  have p: "pi = 16 * arctan (1 / 5) - 4 * arctan (1 / 239)"
    using machin by simp
  show "314159265358 / 10 ^ 11 < pi"
    using a5l a239u unfolding p by (simp add: eval_nat_numeral)
  show "pi < 31415926536 / 10 ^ 10"
    using a5u a239l unfolding p by (simp add: eval_nat_numeral)
qed

lemma sqrt_2pi_enclosure: "250662827462 / 10 ^ 11 \<le> sqrt (2 * pi)" "sqrt (2 * pi) \<le> 250662827465 / 10 ^ 11"
proof -
  have "(250662827462 / 10 ^ 11 :: real)\<^sup>2 \<le> 2 * (314159265358 / 10 ^ 11)"
    by (simp add: power2_eq_square)
  also have "\<dots> \<le> 2 * pi"
    using pi_enclosure(1) by simp
  finally show "250662827462 / 10 ^ 11 \<le> sqrt (2 * pi)"
    by (rule real_le_rsqrt)
  have "2 * pi \<le> 2 * (31415926536 / 10 ^ 10)"
    using pi_enclosure(2) by simp
  also have "\<dots> \<le> (250662827465 / 10 ^ 11 :: real)\<^sup>2"
    by (simp add: power2_eq_square)
  finally show "sqrt (2 * pi) \<le> 250662827465 / 10 ^ 11"
    by (intro real_le_lsqrt) simp_all
qed

lemma gauss_int_7_20: "342983579071 / 10 ^ 12 \<le> gauss_int (7 / 20)" "gauss_int (7 / 20) \<le> 342983579073 / 10 ^ 12"
proof -
  have "(\<Sum>i<2 * 3. gauss_term (7 / 20) i) \<le> gauss_int (7 / 20)"
    by (rule gauss_int_lower) simp_all
  then show "342983579071 / 10 ^ 12 \<le> gauss_int (7 / 20)"
    by (simp add: gauss_term_def eval_nat_numeral)
  have "gauss_int (7 / 20) \<le> (\<Sum>i<2 * 3 + 1. gauss_term (7 / 20) i)"
    by (rule gauss_int_upper) simp_all
  then show "gauss_int (7 / 20) \<le> 342983579073 / 10 ^ 12"
    by (simp add: gauss_term_def eval_nat_numeral)
qed

lemma gauss_int_3_20: "149439393363 / 10 ^ 12 \<le> gauss_int (3 / 20)" "gauss_int (3 / 20) \<le> 149439393364 / 10 ^ 12"
proof -
  have "(\<Sum>i<2 * 3. gauss_term (3 / 20) i) \<le> gauss_int (3 / 20)"
    by (rule gauss_int_lower) simp_all
  then show "149439393363 / 10 ^ 12 \<le> gauss_int (3 / 20)"
    by (simp add: gauss_term_def eval_nat_numeral)
  have "gauss_int (3 / 20) \<le> (\<Sum>i<2 * 3 + 1. gauss_term (3 / 20) i)"
    by (rule gauss_int_upper) simp_all
  then show "gauss_int (3 / 20) \<le> 149439393364 / 10 ^ 12"
    by (simp add: gauss_term_def eval_nat_numeral)
qed

lemma exp_1_20: "95122942447 / 10 ^ 11 \<le> exp (- (1 / 20) :: real)" "exp (- (1 / 20) :: real) \<le> 95122942451 / 10 ^ 11"
proof -
  have "(\<Sum>m<2 * 3. (- (1 / 20 :: real)) ^ m / fact m) \<le> exp (- (1 / 20))"
    by (rule exp_neg_lower) simp
  then show "95122942447 / 10 ^ 11 \<le> exp (- (1 / 20) :: real)"
    by (simp add: eval_nat_numeral)
  have "exp (- (1 / 20)) \<le> (\<Sum>m<2 * 3 + 1. (- (1 / 20 :: real)) ^ m / fact m)"
    by (rule exp_neg_upper) simp
  then show "exp (- (1 / 20) :: real) \<le> 95122942451 / 10 ^ 11"
    by (simp add: eval_nat_numeral)
qed

lemma exp_49_800: "94058806329 / 10 ^ 11 \<le> exp (- (49 / 800) :: real)" "exp (- (49 / 800) :: real) \<le> 94058806337 / 10 ^ 11"
proof -
  have "(\<Sum>m<2 * 3. (- (49 / 800 :: real)) ^ m / fact m) \<le> exp (- (49 / 800))"
    by (rule exp_neg_lower) simp
  then show "94058806329 / 10 ^ 11 \<le> exp (- (49 / 800) :: real)"
    by (simp add: eval_nat_numeral)
  have "exp (- (49 / 800)) \<le> (\<Sum>m<2 * 3 + 1. (- (49 / 800 :: real)) ^ m / fact m)"
    by (rule exp_neg_upper) simp
  then show "exp (- (49 / 800) :: real) \<le> 94058806337 / 10 ^ 11"
    by (simp add: eval_nat_numeral)
qed

lemma quotient_enclosure:
  fixes a :: real
  assumes "0 \<le> al" "al \<le> a" "a \<le> ah"
  shows "al / (250662827465 / 10 ^ 11) \<le> a / sqrt (2 * pi)"
    and "a / sqrt (2 * pi) \<le> ah / (250662827462 / 10 ^ 11)"
proof -
  have s: "0 < sqrt (2 * pi)"
    by simp
  show "al / (250662827465 / 10 ^ 11) \<le> a / sqrt (2 * pi)"
    using assms by (intro frac_le s sqrt_2pi_enclosure(2)) simp_all
  show "a / sqrt (2 * pi) \<le> ah / (250662827462 / 10 ^ 11)"
    using assms by (intro frac_le sqrt_2pi_enclosure(1)) simp_all
qed

lemma norm_cdf_7_20:
  "6368306511 / 10 ^ 10 \<le> norm_cdf (7 / 20)" "norm_cdf (7 / 20) \<le> 6368306513 / 10 ^ 10"
  using quotient_enclosure [OF _ gauss_int_7_20]
  by (simp_all add: norm_cdf_def)

lemma norm_cdf_3_20:
  "5596176923 / 10 ^ 10 \<le> norm_cdf (3 / 20)" "norm_cdf (3 / 20) \<le> 5596176925 / 10 ^ 10"
  using quotient_enclosure [OF _ gauss_int_3_20]
  by (simp_all add: norm_cdf_def)

lemma norm_pdf_7_20:
  "3752403468 / 10 ^ 10 \<le> norm_pdf (7 / 20)" "norm_pdf (7 / 20) \<le> 3752403470 / 10 ^ 10"
proof -
  have "norm_pdf (7 / 20) = exp (- (49 / 800)) / sqrt (2 * pi)"
    by (simp add: norm_pdf_def power2_eq_square)
  then show "3752403468 / 10 ^ 10 \<le> norm_pdf (7 / 20)" "norm_pdf (7 / 20) \<le> 3752403470 / 10 ^ 10"
    using quotient_enclosure [OF _ exp_1_20] quotient_enclosure [OF _ exp_49_800]
    by simp_all
qed

lemma discounted_cdf:
  "53232481536 / 10 ^ 11 \<le> exp (- (1 / 20)) * norm_cdf (3 / 20)"
  "exp (- (1 / 20)) * norm_cdf (3 / 20) \<le> 53232481559 / 10 ^ 11"
proof -
  have "95122942447 / 10 ^ 11 * (5596176923 / 10 ^ 10) \<le> exp (- (1 / 20)) * norm_cdf (3 / 20)"
    by (intro mult_mono exp_1_20 norm_cdf_3_20) simp_all
  then show "53232481536 / 10 ^ 11 \<le> exp (- (1 / 20)) * norm_cdf (3 / 20)"
    by simp
  have "exp (- (1 / 20)) * norm_cdf (3 / 20) \<le> 95122942451 / 10 ^ 11 * (5596176925 / 10 ^ 10)"
    by (intro mult_mono exp_1_20 norm_cdf_3_20 norm_cdf_ge_0) simp_all
  then show "exp (- (1 / 20)) * norm_cdf (3 / 20) \<le> 53232481559 / 10 ^ 11"
    by simp
qed

section \<open>The claims\<close>

subsection \<open>What every operation computes on a valid contract\<close>

lemma calc_d1_valid:
  fixes S K r t sigma :: real
  assumes "0 < S" "0 < K" "0 < t" "0 < sigma"
  shows "calc_d1 S K r t sigma = Inr (bs_d1 S K r t sigma)"
  using assms
  by (simp add: calc_d1_def bind_err_def py_div_def math_log_def math_sqrt_def bs_d1_def
      not_le divide_pos_pos)

lemma kind_disjoint: "is_call kind \<Longrightarrow> \<not> is_put kind"
  by (auto simp: is_call_def is_put_def)

lemma bsmodel_valid:
  fixes S K r t sigma :: real
  assumes "0 < S" "0 < K" "0 < t" "0 < sigma"
  shows "bsmodel kind S K r t sigma =
           Inr (if is_call kind then Some (bs_call S K r t sigma)
                else if is_put kind then Some (bs_put S K r t sigma) else None)"
  by (simp add: bsmodel_def calc_d1_valid [OF assms] bind_err_def Let_def bs_call_def bs_put_def
      bs_d2_def mult_ac)

lemma delta_valid:
  fixes S K r t sigma :: real
  assumes "0 < S" "0 < K" "0 < t" "0 < sigma"
  shows "delta kind S K r t sigma =
           Inr (if is_call kind then Some (norm_cdf (bs_d1 S K r t sigma))
                else if is_put kind then Some (- norm_cdf (- bs_d1 S K r t sigma)) else None)"
  by (simp add: delta_def calc_d1_valid [OF assms] bind_err_def)

lemma gamma_valid:
  fixes S K r t sigma :: real
  assumes "0 < S" "0 < K" "0 < t" "0 < sigma"
  shows "gamma S K r t sigma = Inr (norm_pdf (bs_d1 S K r t sigma) / (S * sigma * sqrt t))"
  using assms by (simp add: gamma_def calc_d1_valid [OF assms] bind_err_def py_div_def)

lemma vega_valid:
  fixes S K r t sigma :: real
  assumes "0 < S" "0 < K" "0 < t" "0 < sigma"
  shows "vega S K r t sigma = Inr (S * sqrt t * norm_pdf (bs_d1 S K r t sigma) / 100)"
  by (simp add: vega_def calc_d1_valid [OF assms] bind_err_def)

lemma theta_valid:
  fixes S K r t sigma :: real
  assumes "0 < S" "0 < K" "0 < t" "0 < sigma"
  shows "theta kind S K r t sigma =
           Inr (if is_call kind then
                  Some ((- S * norm_pdf (bs_d1 S K r t sigma) * sigma / (2 * sqrt t)
                         - r * K * exp (- r * t) * norm_cdf (bs_d2 S K r t sigma)) / 365)
                else if is_put kind then
                  Some ((- S * norm_pdf (bs_d1 S K r t sigma) * sigma / (2 * sqrt t)
                         + r * K * exp (- r * t) * norm_cdf (- bs_d2 S K r t sigma)) / 365)
                else None)"
  using assms
  by (simp add: theta_def calc_d1_valid [OF assms] bind_err_def py_div_def Let_def bs_d2_def)

lemma rho_valid:
  fixes S K r t sigma :: real
  assumes "0 < S" "0 < K" "0 < t" "0 < sigma"
  shows "rho kind S K r t sigma =
           Inr (if is_call kind then
                  Some (K * t * exp (- r * t) * norm_cdf (bs_d2 S K r t sigma) / 100)
                else if is_put kind then
                  Some (- K * t * exp (- r * t) * norm_cdf (- bs_d2 S K r t sigma) / 100)
                else None)"
  by (simp add: rho_def calc_d1_valid [OF assms] bind_err_def Let_def bs_d2_def)

lemma metrics_valid:
  fixes S K r t sigma :: real
  assumes "0 < S" "0 < K" "0 < t" "0 < sigma" and kind: "is_call kind \<or> is_put kind"
  shows "calculate_option_metrics
           \<lparr>option_type = kind, S = S, K = K, r = r, t = t, sigma = sigma\<rparr> =
         Inr \<lparr>call_price = bs_call S K r t sigma,
              put_price = bs_put S K r t sigma,
              delta_value = (if is_call kind then Some (norm_cdf (bs_d1 S K r t sigma))
                             else Some (- norm_cdf (- bs_d1 S K r t sigma))),
              gamma_value = norm_pdf (bs_d1 S K r t sigma) / (S * sigma * sqrt t),
              theta_value =
                (if is_call kind then
                   (- S * norm_pdf (bs_d1 S K r t sigma) * sigma / (2 * sqrt t)
                    - r * K * exp (- r * t) * norm_cdf (bs_d2 S K r t sigma)) / 365
                 else
                   (- S * norm_pdf (bs_d1 S K r t sigma) * sigma / (2 * sqrt t)
                    + r * K * exp (- r * t) * norm_cdf (- bs_d2 S K r t sigma)) / 365),
              vega_value = S * sqrt t * norm_pdf (bs_d1 S K r t sigma) / 100,
              rho_value =
                (if is_call kind then
                   Some (K * t * exp (- r * t) * norm_cdf (bs_d2 S K r t sigma) / 100)
                 else Some (- K * t * exp (- r * t) * norm_cdf (- bs_d2 S K r t sigma) / 100))\<rparr>"
  using assms(1-4) kind
  by (auto simp: calculate_option_metrics_def calculate_d1_d2_def calc_d1_valid [OF assms(1-4)]
      bind_err_def calculate_N_values_def calculate_call_price_def calculate_put_price_def
      calculate_delta_def calculate_gamma_def calculate_theta_def calculate_vega_def
      calculate_rho_def py_div_def Let_def bs_call_def bs_put_def bs_d2_def)

lemma calc_d1_cases:
  fixes S K r t sigma :: real
  shows "calc_d1 S K r t sigma =
           (if K = 0 then Inl ZeroDivisionError
            else if S / K \<le> 0 then Inl ValueError
            else if t < 0 then Inl ValueError
            else if sigma * sqrt t = 0 then Inl ZeroDivisionError
            else Inr (bs_d1 S K r t sigma))"
  by (simp add: calc_d1_def bind_err_def py_div_def math_log_def math_sqrt_def bs_d1_def)

subsection \<open>C1: the price is the Black-Scholes closed form\<close>

text \<open>
  C1. For every contract with spot \<open>S > 0\<close>, strike \<open>K > 0\<close>, maturity \<open>t > 0\<close> and
  volatility \<open>sigma > 0\<close>, \<^verbatim>\<open>bsmodel\<close> returns \<open>bs_call\<close> for a call and \<open>bs_put\<close> for
  a put, and so do \<^verbatim>\<open>calculate_call_price\<close> and \<^verbatim>\<open>calculate_put_price\<close> of the class on
  the values that \<^verbatim>\<open>calculate_N_values\<close> hands them.
\<close>

theorem price_closed_form:
  fixes S K r t sigma :: real
  assumes "0 < S" "0 < K" "0 < t" "0 < sigma"
  shows "(is_call kind \<longrightarrow> bsmodel kind S K r t sigma = Inr (Some (bs_call S K r t sigma)))
       \<and> (is_put kind \<longrightarrow> bsmodel kind S K r t sigma = Inr (Some (bs_put S K r t sigma)))
       \<and> (is_call kind \<or> is_put kind \<longrightarrow>
            (\<exists>m. calculate_option_metrics
                    \<lparr>option_type = kind, S = S, K = K, r = r, t = t, sigma = sigma\<rparr> = Inr m
                 \<and> call_price m = bs_call S K r t sigma
                 \<and> put_price m = bs_put S K r t sigma))"
proof (intro conjI impI)
  assume "is_call kind"
  then show "bsmodel kind S K r t sigma = Inr (Some (bs_call S K r t sigma))"
    by (simp add: bsmodel_valid [OF assms])
next
  assume "is_put kind"
  then have "\<not> is_call kind"
    using kind_disjoint by blast
  with \<open>is_put kind\<close> show "bsmodel kind S K r t sigma = Inr (Some (bs_put S K r t sigma))"
    by (simp add: bsmodel_valid [OF assms])
next
  assume "is_call kind \<or> is_put kind"
  then show "\<exists>m. calculate_option_metrics
                    \<lparr>option_type = kind, S = S, K = K, r = r, t = t, sigma = sigma\<rparr> = Inr m
                 \<and> call_price m = bs_call S K r t sigma
                 \<and> put_price m = bs_put S K r t sigma"
    by (simp add: metrics_valid [OF assms])
qed

theorem price_closed_form_witness:
  "bsmodel ''call'' 100 100 (5 / 100) 1 (2 / 10) = Inr (Some (bs_call 100 100 (5 / 100) 1 (2 / 10)))
   \<and> bsmodel ''p'' 100 100 (5 / 100) 1 (2 / 10) = Inr (Some (bs_put 100 100 (5 / 100) 1 (2 / 10)))"
  using price_closed_form [of 100 100 1 "2 / 10" "''call''" "5 / 100"]
        price_closed_form [of 100 100 1 "2 / 10" "''p''" "5 / 100"]
  by (simp add: is_call_def is_put_def)

subsection \<open>C2: put-call parity\<close>

text \<open>
  C2. For every valid contract (\<open>S > 0\<close>, \<open>K > 0\<close>, \<open>t > 0\<close>, \<open>sigma > 0\<close>, any rate), the
  price \<^verbatim>\<open>bsmodel\<close> returns for a call minus the price it returns for a put at the same
  parameters is \<open>S - K * exp (- r * t)\<close>; the two prices of \<^verbatim>\<open>calculate_option_metrics\<close>
  differ by the same amount.
\<close>

theorem put_call_parity:
  fixes S K r t sigma :: real
  assumes "0 < S" "0 < K" "0 < t" "0 < sigma" "is_call kc" "is_put kp"
  shows "(\<exists>c p. bsmodel kc S K r t sigma = Inr (Some c)
              \<and> bsmodel kp S K r t sigma = Inr (Some p)
              \<and> c - p = S - K * exp (- r * t))
       \<and> (\<exists>m. calculate_option_metrics
                 \<lparr>option_type = kc, S = S, K = K, r = r, t = t, sigma = sigma\<rparr> = Inr m
              \<and> call_price m - put_price m = S - K * exp (- r * t))"
proof -
  have "\<not> is_call kp"
    using assms(6) kind_disjoint by blast
  moreover have "bs_call S K r t sigma - bs_put S K r t sigma = S - K * exp (- r * t)"
    by (simp add: bs_call_def bs_put_def norm_cdf_minus algebra_simps)
  ultimately show ?thesis
    using assms(5,6)
    by (simp add: bsmodel_valid [OF assms(1-4)] metrics_valid [OF assms(1-4)])
qed

theorem put_call_parity_witness:
  "\<exists>c p. bsmodel ''c'' 100 90 (3 / 100) (1 / 2) (25 / 100) = Inr (Some c)
        \<and> bsmodel ''put'' 100 90 (3 / 100) (1 / 2) (25 / 100) = Inr (Some p)
        \<and> c - p = 100 - 90 * exp (- (3 / 100) * (1 / 2))"
  using put_call_parity [of 100 90 "1 / 2" "25 / 100" "''c''" "''put''" "3 / 100"]
  by (simp add: is_call_def is_put_def)

subsection \<open>C3: inputs that are not positive\<close>

text \<open>
  C3 states that every input with a spot, strike, maturity or volatility that is not
  positive fails with an InvalidInput error naming the constraint, before any
  computation, and never with a division by zero or a math domain error. The source
  checks nothing: with volatility 0 the division in \<^verbatim>\<open>d1\<close> raises ZeroDivisionError.
\<close>

theorem zero_volatility_counterexample:
  "bsmodel ''c'' 100 100 (5 / 100) 1 0 = Inl ZeroDivisionError"
  by (simp add: bsmodel_def calc_d1_cases bind_err_def)

text \<open>
  C3 as amended. \<^verbatim>\<open>bsmodel\<close> makes no check of its own: it raises ZeroDivisionError when
  the strike is 0, ValueError (math domain error) when \<open>S / K \<le> 0\<close> or, failing that, when
  the maturity is negative, ZeroDivisionError when the volatility or the maturity is 0,
  and on every other input, a negative spot with a negative strike or a negative
  volatility among them, it returns a price. \<^verbatim>\<open>get_input\<close> passes values that are not
  positive on to the engine.
\<close>

theorem bsmodel_on_every_input:
  fixes S K r t sigma :: real
  shows "bsmodel kind S K r t sigma =
           (if K = 0 then Inl ZeroDivisionError
            else if S / K \<le> 0 then Inl ValueError
            else if t < 0 then Inl ValueError
            else if sigma = 0 \<or> t = 0 then Inl ZeroDivisionError
            else Inr (if is_call kind then Some (bs_call S K r t sigma)
                      else if is_put kind then Some (bs_put S K r t sigma)
                      else None))
       \<and> get_input [''c'', ''0'', ''-5'', ''0.05'', ''0'', ''0'']
           = (Inr (''c'', 0, - 5, 5 / 100, 0, 0), [])"
proof
  show "bsmodel kind S K r t sigma =
           (if K = 0 then Inl ZeroDivisionError
            else if S / K \<le> 0 then Inl ValueError
            else if t < 0 then Inl ValueError
            else if sigma = 0 \<or> t = 0 then Inl ZeroDivisionError
            else Inr (if is_call kind then Some (bs_call S K r t sigma)
                      else if is_put kind then Some (bs_put S K r t sigma)
                      else None))"
    by (simp add: bsmodel_def calc_d1_cases bind_err_def Let_def bs_call_def bs_put_def
        bs_d2_def mult_ac)
  show "get_input [''c'', ''0'', ''-5'', ''0.05'', ''0'', ''0'']
           = (Inr (''c'', 0, - 5, 5 / 100, 0, 0), [])"
    by (simp add: get_input_def get_input_body_def input_option_type_def input_float_def
        input_rate_def bind_io_def lift_io_def input_def lower_def lower_char_def
        replace_comma_def percent_float_def bind_err_def py_float_def split_sign_def
        is_digit_def digit_val_def digits_val_def)
qed

subsection \<open>C4: a kind outside the enumeration\<close>

text \<open>
  C4 states that every kind-dependent operation fails with a hard InvalidInput error on
  a kind that is none of \<^verbatim>\<open>c\<close>, \<^verbatim>\<open>call\<close>, \<^verbatim>\<open>p\<close>, \<^verbatim>\<open>put\<close>. \<^verbatim>\<open>bsmodel\<close> falls through
  both branches and returns \<^verbatim>\<open>None\<close>.
\<close>

theorem unknown_kind_counterexample:
  "bsmodel ''x'' 100 100 (5 / 100) 1 (2 / 10) = Inr None"
  by (simp add: bsmodel_def calc_d1_cases bind_err_def Let_def is_call_def is_put_def)

text \<open>
  C4 as amended. On a valid contract whose kind is outside the enumeration, the
  procedural \<^verbatim>\<open>bsmodel\<close>, \<^verbatim>\<open>delta\<close>, \<^verbatim>\<open>theta\<close> and \<^verbatim>\<open>rho\<close> each return \<^verbatim>\<open>None\<close> and
  raise nothing; in the class \<^verbatim>\<open>calculate_delta\<close> and \<^verbatim>\<open>calculate_rho\<close> return \<^verbatim>\<open>None\<close>
  and \<^verbatim>\<open>calculate_theta\<close> raises UnboundLocalError, which ends
  \<^verbatim>\<open>calculate_option_metrics\<close>. The enumeration is enforced by \<^verbatim>\<open>get_input\<close> alone.
\<close>

theorem unknown_kind_returns_None:
  fixes S K r t sigma :: real
  assumes "0 < S" "0 < K" "0 < t" "0 < sigma" "\<not> is_call kind" "\<not> is_put kind"
  shows "bsmodel kind S K r t sigma = Inr None
       \<and> delta kind S K r t sigma = Inr None
       \<and> theta kind S K r t sigma = Inr None
       \<and> rho kind S K r t sigma = Inr None
       \<and> calculate_delta \<lparr>option_type = kind, S = S, K = K, r = r, t = t, sigma = sigma\<rparr> a b = None
       \<and> calculate_rho \<lparr>option_type = kind, S = S, K = K, r = r, t = t, sigma = sigma\<rparr> a b = None
       \<and> calculate_option_metrics
            \<lparr>option_type = kind, S = S, K = K, r = r, t = t, sigma = sigma\<rparr> = Inl UnboundLocalError"
  using assms
  by (simp add: bsmodel_valid delta_valid theta_valid rho_valid calculate_delta_def
      calculate_rho_def calculate_option_metrics_def calculate_d1_d2_def calc_d1_valid
      bind_err_def calculate_N_values_def calculate_gamma_def calculate_theta_def py_div_def)

theorem unknown_kind_returns_None_witness:
  "bsmodel ''x'' 100 100 (5 / 100) 1 (2 / 10) = Inr None
   \<and> delta ''x'' 100 100 (5 / 100) 1 (2 / 10) = Inr None
   \<and> theta ''x'' 100 100 (5 / 100) 1 (2 / 10) = Inr None
   \<and> rho ''x'' 100 100 (5 / 100) 1 (2 / 10) = Inr None
   \<and> calculate_option_metrics
        \<lparr>option_type = ''x'', S = 100, K = 100, r = 5 / 100, t = 1, sigma = 2 / 10\<rparr>
      = Inl UnboundLocalError"
  using unknown_kind_returns_None [of 100 100 1 "2 / 10" "''x''" "5 / 100"]
  by (simp add: is_call_def is_put_def)

subsection \<open>C5: the two variants agree\<close>

text \<open>
  C5. On every valid contract with a kind of the enumeration,
  \<^verbatim>\<open>calculate_option_metrics\<close> of the class built from the same six parameters returns a
  result, and each procedural operation returns the matching component of it: \<^verbatim>\<open>bsmodel\<close>
  the call price for a call and the put price for a put, \<^verbatim>\<open>delta\<close>, \<^verbatim>\<open>gamma\<close>, \<^verbatim>\<open>theta\<close>,
  \<^verbatim>\<open>vega\<close> and \<^verbatim>\<open>rho\<close> the value of the same name.
\<close>

theorem variants_agree:
  fixes S K r t sigma :: real
  assumes "0 < S" "0 < K" "0 < t" "0 < sigma" "is_call kind \<or> is_put kind"
  shows "\<exists>m. calculate_option_metrics
               \<lparr>option_type = kind, S = S, K = K, r = r, t = t, sigma = sigma\<rparr> = Inr m
            \<and> bsmodel kind S K r t sigma
                = Inr (Some (if is_call kind then call_price m else put_price m))
            \<and> delta kind S K r t sigma = Inr (delta_value m)
            \<and> gamma S K r t sigma = Inr (gamma_value m)
            \<and> theta kind S K r t sigma = Inr (Some (theta_value m))
            \<and> vega S K r t sigma = Inr (vega_value m)
            \<and> rho kind S K r t sigma = Inr (rho_value m)"
  using assms(5)
  by (auto simp: metrics_valid [OF assms] bsmodel_valid [OF assms(1-4)] delta_valid [OF assms(1-4)]
      gamma_valid [OF assms(1-4)] theta_valid [OF assms(1-4)] vega_valid [OF assms(1-4)]
      rho_valid [OF assms(1-4)])

theorem variants_agree_witness:
  "\<exists>m. calculate_option_metrics
          \<lparr>option_type = ''put'', S = 100, K = 90, r = 3 / 100, t = 1 / 2, sigma = 25 / 100\<rparr> = Inr m
       \<and> bsmodel ''put'' 100 90 (3 / 100) (1 / 2) (25 / 100) = Inr (Some (put_price m))
       \<and> delta ''put'' 100 90 (3 / 100) (1 / 2) (25 / 100) = Inr (delta_value m)
       \<and> gamma 100 90 (3 / 100) (1 / 2) (25 / 100) = Inr (gamma_value m)
       \<and> theta ''put'' 100 90 (3 / 100) (1 / 2) (25 / 100) = Inr (Some (theta_value m))
       \<and> vega 100 90 (3 / 100) (1 / 2) (25 / 100) = Inr (vega_value m)
       \<and> rho ''put'' 100 90 (3 / 100) (1 / 2) (25 / 100) = Inr (rho_value m)"
  using variants_agree [of 100 90 "1 / 2" "25 / 100" "''put''" "3 / 100"]
  by (simp add: is_call_def is_put_def)

subsection \<open>C6: the range of delta\<close>

text \<open>
  C6. On every valid contract \<^verbatim>\<open>delta\<close> returns a value between 0 and 1 for a call and a
  value between -1 and 0 for a put.
\<close>

theorem delta_bounds:
  fixes S K r t sigma :: real
  assumes "0 < S" "0 < K" "0 < t" "0 < sigma"
  shows "(is_call kind \<longrightarrow> (\<exists>d. delta kind S K r t sigma = Inr (Some d) \<and> 0 \<le> d \<and> d \<le> 1))
       \<and> (is_put kind \<longrightarrow> (\<exists>d. delta kind S K r t sigma = Inr (Some d) \<and> - 1 \<le> d \<and> d \<le> 0))"
proof (intro conjI impI)
  assume "is_call kind"
  then show "\<exists>d. delta kind S K r t sigma = Inr (Some d) \<and> 0 \<le> d \<and> d \<le> 1"
    by (simp add: delta_valid [OF assms] norm_cdf_ge_0 norm_cdf_le_1)
next
  assume p: "is_put kind"
  then have "\<not> is_call kind"
    using kind_disjoint by blast
  with p show "\<exists>d. delta kind S K r t sigma = Inr (Some d) \<and> - 1 \<le> d \<and> d \<le> 0"
    by (simp add: delta_valid [OF assms] norm_cdf_ge_0 norm_cdf_le_1)
qed

theorem delta_bounds_witness:
  "(\<exists>d. delta ''c'' 100 90 (3 / 100) (1 / 2) (25 / 100) = Inr (Some d) \<and> 0 \<le> d \<and> d \<le> 1)
   \<and> (\<exists>d. delta ''p'' 100 90 (3 / 100) (1 / 2) (25 / 100) = Inr (Some d) \<and> - 1 \<le> d \<and> d \<le> 0)"
  using delta_bounds [of 100 90 "1 / 2" "25 / 100" "''c''" "3 / 100"]
        delta_bounds [of 100 90 "1 / 2" "25 / 100" "''p''" "3 / 100"]
  by (simp add: is_call_def is_put_def)

subsection \<open>C7: gamma and vega\<close>

text \<open>
  C7. On every valid contract \<^verbatim>\<open>gamma\<close> and \<^verbatim>\<open>vega\<close> return values that are not
  negative. Neither function of the procedural module takes the kind, and the class
  returns the same gamma and the same vega for a call and for a put with the same
  \<open>S\<close>, \<open>K\<close>, \<open>r\<close>, \<open>t\<close>, \<open>sigma\<close>.
\<close>

theorem gamma_vega_nonneg:
  fixes S K r t sigma :: real
  assumes "0 < S" "0 < K" "0 < t" "0 < sigma" "is_call kc" "is_put kp"
  shows "\<exists>g v mc mp.
           gamma S K r t sigma = Inr g \<and> vega S K r t sigma = Inr v \<and> 0 \<le> g \<and> 0 \<le> v
         \<and> calculate_option_metrics
             \<lparr>option_type = kc, S = S, K = K, r = r, t = t, sigma = sigma\<rparr> = Inr mc
         \<and> calculate_option_metrics
             \<lparr>option_type = kp, S = S, K = K, r = r, t = t, sigma = sigma\<rparr> = Inr mp
         \<and> gamma_value mc = g \<and> gamma_value mp = g \<and> vega_value mc = v \<and> vega_value mp = v"
proof -
  let ?g = "norm_pdf (bs_d1 S K r t sigma) / (S * sigma * sqrt t)"
  let ?v = "S * sqrt t * norm_pdf (bs_d1 S K r t sigma) / 100"
  have pdf: "0 \<le> norm_pdf (bs_d1 S K r t sigma)"
    by (simp add: norm_pdf_def)
  have g: "0 \<le> ?g" and v: "0 \<le> ?v"
    using pdf assms(1-4) by simp_all
  obtain mc where mc: "calculate_option_metrics
      \<lparr>option_type = kc, S = S, K = K, r = r, t = t, sigma = sigma\<rparr> = Inr mc"
      "gamma_value mc = ?g" "vega_value mc = ?v"
    using assms(5) by (simp add: metrics_valid [OF assms(1-4)])
  obtain mp where mp: "calculate_option_metrics
      \<lparr>option_type = kp, S = S, K = K, r = r, t = t, sigma = sigma\<rparr> = Inr mp"
      "gamma_value mp = ?g" "vega_value mp = ?v"
    using assms(6) by (simp add: metrics_valid [OF assms(1-4)])
  show ?thesis
    using gamma_valid [OF assms(1-4)] vega_valid [OF assms(1-4)] g v mc mp by blast
qed

theorem gamma_vega_nonneg_witness:
  "\<exists>g v mc mp.
      gamma 100 90 (3 / 100) (1 / 2) (25 / 100) = Inr g
    \<and> vega 100 90 (3 / 100) (1 / 2) (25 / 100) = Inr v \<and> 0 \<le> g \<and> 0 \<le> v
    \<and> calculate_option_metrics
        \<lparr>option_type = ''call'', S = 100, K = 90, r = 3 / 100, t = 1 / 2, sigma = 25 / 100\<rparr> = Inr mc
    \<and> calculate_option_metrics
        \<lparr>option_type = ''put'', S = 100, K = 90, r = 3 / 100, t = 1 / 2, sigma = 25 / 100\<rparr> = Inr mp
    \<and> gamma_value mc = g \<and> gamma_value mp = g \<and> vega_value mc = v \<and> vega_value mp = v"
  using gamma_vega_nonneg [of 100 90 "1 / 2" "25 / 100" "''call''" "''put''" "3 / 100"]
  by (simp add: is_call_def is_put_def)

subsection \<open>C8: the reference values\<close>

lemma reference_d1: "bs_d1 100 100 (1 / 20) 1 (1 / 5) = 7 / 20"
  by (simp add: bs_d1_def power2_eq_square)

lemma reference_d2: "bs_d2 100 100 (1 / 20) 1 (1 / 5) = 3 / 20"
  by (simp add: bs_d2_def reference_d1)

text \<open>
  C8. For \<open>S = 100\<close>, \<open>K = 100\<close>, \<open>r = 0.05\<close>, \<open>t = 1\<close>, \<open>sigma = 0.2\<close> the engine
  returns a call price that rounds to 10.4506 and a put price that rounds to 5.5735 (four
  decimal places), a call delta that rounds to 0.6368, a gamma that rounds to 0.01876, a
  vega that rounds to 0.37524, a call rho that rounds to 0.53232 and a call theta, per
  day, that rounds to -0.01757: each value lies within half a unit of the last decimal
  place quoted.
\<close>

theorem reference_values:
  "\<exists>c p d g v rh th.
      bsmodel ''c'' 100 100 (5 / 100) 1 (2 / 10) = Inr (Some c) \<and> \<bar>c - 104506 / 10 ^ 4\<bar> < 5 / 10 ^ 5
    \<and> bsmodel ''p'' 100 100 (5 / 100) 1 (2 / 10) = Inr (Some p) \<and> \<bar>p - 55735 / 10 ^ 4\<bar> < 5 / 10 ^ 5
    \<and> delta ''c'' 100 100 (5 / 100) 1 (2 / 10) = Inr (Some d) \<and> \<bar>d - 6368 / 10 ^ 4\<bar> < 5 / 10 ^ 5
    \<and> gamma 100 100 (5 / 100) 1 (2 / 10) = Inr g \<and> \<bar>g - 1876 / 10 ^ 5\<bar> < 5 / 10 ^ 6
    \<and> vega 100 100 (5 / 100) 1 (2 / 10) = Inr v \<and> \<bar>v - 37524 / 10 ^ 5\<bar> < 5 / 10 ^ 6
    \<and> rho ''c'' 100 100 (5 / 100) 1 (2 / 10) = Inr (Some rh) \<and> \<bar>rh - 53232 / 10 ^ 5\<bar> < 5 / 10 ^ 6
    \<and> theta ''c'' 100 100 (5 / 100) 1 (2 / 10) = Inr (Some th) \<and> \<bar>th - (- 1757 / 10 ^ 5)\<bar> < 5 / 10 ^ 6"
proof -
  let ?A = "norm_cdf (7 / 20)" and ?B = "norm_cdf (3 / 20)" and ?P = "norm_pdf (7 / 20)"
  let ?E = "exp (- (1 / 20) :: real)"
  note A = norm_cdf_7_20 and B = norm_cdf_3_20 and P = norm_pdf_7_20 and E = exp_1_20
    and EB = discounted_cdf
  have c: "bsmodel ''c'' 100 100 (5 / 100) 1 (2 / 10) = Inr (Some (100 * ?A - 100 * (?E * ?B)))"
    by (simp add: bsmodel_valid bs_call_def reference_d1 reference_d2 is_call_def)
  have p: "bsmodel ''p'' 100 100 (5 / 100) 1 (2 / 10)
             = Inr (Some (100 * ?E - 100 * (?E * ?B) - 100 * (1 - ?A)))"
    by (simp add: bsmodel_valid bs_put_def reference_d1 reference_d2 is_call_def is_put_def
        norm_cdf_minus algebra_simps)
  have d: "delta ''c'' 100 100 (5 / 100) 1 (2 / 10) = Inr (Some ?A)"
    by (simp add: delta_valid reference_d1 is_call_def)
  have g: "gamma 100 100 (5 / 100) 1 (2 / 10) = Inr (?P / 20)"
    by (simp add: gamma_valid reference_d1)
  have v: "vega 100 100 (5 / 100) 1 (2 / 10) = Inr ?P"
    by (simp add: vega_valid reference_d1)
  have rh: "rho ''c'' 100 100 (5 / 100) 1 (2 / 10) = Inr (Some (?E * ?B))"
    by (simp add: rho_valid reference_d2 is_call_def)
  have th: "theta ''c'' 100 100 (5 / 100) 1 (2 / 10)
              = Inr (Some ((- 10 * ?P - 5 * (?E * ?B)) / 365))"
    by (simp add: theta_valid reference_d1 reference_d2 is_call_def)
  have "\<bar>100 * ?A - 100 * (?E * ?B) - 104506 / 10 ^ 4\<bar> < 5 / 10 ^ 5"
    using A EB by (simp add: abs_less_iff)
  moreover have "\<bar>100 * ?E - 100 * (?E * ?B) - 100 * (1 - ?A) - 55735 / 10 ^ 4\<bar> < 5 / 10 ^ 5"
    using A EB E by (simp add: abs_less_iff)
  moreover have "\<bar>?A - 6368 / 10 ^ 4\<bar> < 5 / 10 ^ 5"
    using A by (simp add: abs_less_iff)
  moreover have "\<bar>?P / 20 - 1876 / 10 ^ 5\<bar> < 5 / 10 ^ 6"
    using P by (simp add: abs_less_iff)
  moreover have "\<bar>?P - 37524 / 10 ^ 5\<bar> < 5 / 10 ^ 6"
    using P by (simp add: abs_less_iff)
  moreover have "\<bar>?E * ?B - 53232 / 10 ^ 5\<bar> < 5 / 10 ^ 6"
    using EB by (simp add: abs_less_iff)
  moreover have "\<bar>(- 10 * ?P - 5 * (?E * ?B)) / 365 - (- 1757 / 10 ^ 5)\<bar> < 5 / 10 ^ 6"
  proof -
    define w where "w = (- 10 * ?P - 5 * (?E * ?B)) / 365"
    have "365 * w = - 10 * ?P - 5 * (?E * ?B)"
      by (simp add: w_def)
    then have "- 175745 / 10 ^ 7 < w" "w < - 175655 / 10 ^ 7"
      using P EB by simp_all
    then have "\<bar>w - (- 1757 / 10 ^ 5)\<bar> < 5 / 10 ^ 6"
      unfolding abs_less_iff by simp
    then show ?thesis
      by (simp only: w_def)
  qed
  ultimately show ?thesis
    using c p d g v rh th by blast
qed

subsection \<open>C9: percentages and day counts in the input collectors\<close>

lemmas collector_defs =
  get_input_def get_input_oop_def get_input_body_def input_option_type_def input_float_def
  input_rate_def bind_io_def lift_io_def input_def lower_def lower_char_def replace_comma_def
  remove_percent_def percent_float_def float_percent_oop_def percent_in_str_of_float_def
  bind_err_def py_float_def split_sign_def is_digit_def digit_val_def digits_val_def

lemma percent_not_digit: "\<not> is_digit CHR ''%''"
  by (simp add: is_digit_def)

lemma py_float_percent:
  assumes "CHR ''%'' \<in> set s"
  shows "py_float s = Inl ValueError"
proof -
  obtain sg body where sb: "split_sign s = (sg, body)"
    by (cases "split_sign s")
  have body: "CHR ''%'' \<in> set body"
    using assms sb by (cases s) (auto simp: split_sign_def split: if_splits)
  have "CHR ''%'' \<notin> set (takeWhile is_digit body)"
    using percent_not_digit by (auto dest: set_takeWhileD)
  then have rest: "CHR ''%'' \<in> set (dropWhile is_digit body)"
    using body by (metis Un_iff set_append takeWhile_dropWhile_id)
  then obtain c fp where cf: "dropWhile is_digit body = c # fp"
    by (cases "dropWhile is_digit body") auto
  have "c \<noteq> CHR ''.'' \<or> \<not> list_all is_digit fp"
    using rest cf percent_not_digit by (auto simp: list_all_iff)
  then show ?thesis
    using sb cf by (auto simp: py_float_def Let_def)
qed

lemma float_percent_oop_rejects:
  assumes "CHR ''%'' \<in> set s"
  shows "float_percent_oop (replace_comma s) = Inl ValueError"
proof -
  have "CHR ''%'' \<in> set (replace_comma s)"
    using assms by (force simp: replace_comma_def)
  then show ?thesis
    by (simp add: float_percent_oop_def py_float_percent bind_err_def)
qed

lemma percent_float_suffix:
  assumes "py_float s = Inr v" "CHR ''%'' \<notin> set s"
  shows "percent_float (s @ ''%'') = Inr (v / 100)"
proof -
  have "filter (\<lambda>c. c \<noteq> CHR ''%'') s = s"
    using assms(2) by (simp add: filter_id_conv) blast
  then show ?thesis
    using assms(1) by (simp add: percent_float_def remove_percent_def bind_err_def)
qed

text \<open>
  C9. The input of the rate as \<^verbatim>\<open>5%\<close> and of the volatility as \<^verbatim>\<open>20%\<close>, with a maturity
  of 365 days: \<^verbatim>\<open>get_input\<close> of the procedural module returns the rate 0.05, the maturity
  1 and the volatility 0.2. \<^verbatim>\<open>get_input\<close> of the object-oriented module converts the
  string before it looks for the percent sign, so \<^verbatim>\<open>float("5%")\<close> raises ValueError, the
  loop starts again at the option type with the lines that are left, and the percentage
  never reaches the engine; on the same input without percent signs it returns the
  same parameters as the procedural module, the day count converted.
\<close>

theorem oop_collector_rejects_percent:
  "get_input [''c'', ''100'', ''100'', ''5%'', ''365'', ''20%'']
     = (Inr (''c'', 100, 100, 5 / 100, 1, 2 / 10), [])
   \<and> get_input_oop [''c'', ''100'', ''100'', ''5%'', ''365'', ''20%''] = (Inl EOFError, [])
   \<and> get_input_oop [''c'', ''100'', ''100'', ''5%'', ''p'', ''100'', ''100'', ''0.05'', ''365'', ''0.2'']
     = (Inr (''p'', 100, 100, 5 / 100, 1, 2 / 10), [])
   \<and> get_input_oop [''c'', ''100'', ''100'', ''0.05'', ''365'', ''0.2'']
     = (Inr (''c'', 100, 100, 5 / 100, 1, 2 / 10), [])"
  by (simp add: collector_defs)

subsection \<open>C10: both prices in one result\<close>

text \<open>
  C10. For every valid contract whose kind is in the enumeration,
  \<^verbatim>\<open>calculate_option_metrics\<close> returns the call price and the put price together, and
  neither depends on the stored kind: the results for two kinds of the enumeration, the
  other parameters being equal, hold the same call price and the same put price, the
  closed forms \<open>bs_call\<close> and \<open>bs_put\<close>.
\<close>

theorem metrics_prices_independent_of_kind:
  fixes S K r t sigma :: real
  assumes "0 < S" "0 < K" "0 < t" "0 < sigma"
    and "is_call k1 \<or> is_put k1" and "is_call k2 \<or> is_put k2"
  shows "\<exists>m1 m2.
           calculate_option_metrics
             \<lparr>option_type = k1, S = S, K = K, r = r, t = t, sigma = sigma\<rparr> = Inr m1
         \<and> calculate_option_metrics
             \<lparr>option_type = k2, S = S, K = K, r = r, t = t, sigma = sigma\<rparr> = Inr m2
         \<and> call_price m1 = call_price m2 \<and> put_price m1 = put_price m2
         \<and> call_price m1 = bs_call S K r t sigma \<and> put_price m1 = bs_put S K r t sigma"
  by (simp add: metrics_valid [OF assms(1-4) assms(5)] metrics_valid [OF assms(1-4) assms(6)])

theorem metrics_prices_independent_of_kind_witness:
  "\<exists>m1 m2.
      calculate_option_metrics
        \<lparr>option_type = ''c'', S = 100, K = 90, r = 3 / 100, t = 1 / 2, sigma = 25 / 100\<rparr> = Inr m1
    \<and> calculate_option_metrics
        \<lparr>option_type = ''put'', S = 100, K = 90, r = 3 / 100, t = 1 / 2, sigma = 25 / 100\<rparr> = Inr m2
    \<and> call_price m1 = call_price m2 \<and> put_price m1 = put_price m2
    \<and> call_price m1 = bs_call 100 90 (3 / 100) (1 / 2) (25 / 100)
    \<and> put_price m1 = bs_put 100 90 (3 / 100) (1 / 2) (25 / 100)"
  using metrics_prices_independent_of_kind
          [of 100 90 "1 / 2" "25 / 100" "''c''" "''put''" "3 / 100"]
  by (simp add: is_call_def is_put_def)

end
